theory Spec2Isabelle
  imports Main "HOL-Library.Monad_Syntax"
begin

section \<open>The data of physfs.c\<close>

text \<open>
  The file keeps its state in static variables and in two singly linked,
  NULL-terminated lists. A linked list is modelled by the sequence of its nodes, head
  first (the \<open>next\<close> field is the list structure itself); a pointer to a node of
  a list is the node's position in it or, for a cursor that only walks forward, the
  suffix of the list that starts at the node (\<open>[]\<close> for NULL). A \<open>char *\<close>
  that may be NULL is a \<open>string option\<close>; a C \<open>int\<close> used as a flag is an
  \<open>int\<close> tested against 0, as the code tests it.
\<close>

record ErrMsg =
  tid :: int
  errorAvailable :: int
  errorString :: string

text \<open>
  A \<open>DirReader\<close> is an opaque handle; its type is declared in physfs_internal.h,
  outside the sources. A natural number identifies the opened instance.
\<close>

type_synonym DirReader = nat

record SearchDirInfo =
  dirName :: string
  reader :: DirReader

text \<open>
  The static variables of the file (\<open>userDir_retval\<close> is the static local
  \<open>retval\<close> of PHYSFS_getUserDir; \<open>openWriteCount\<close> is used by
  PHYSFS_setWriteDir and declared outside the sources), followed by the part of the
  world the functions act on: the results of the coming calls of \<open>malloc\<close> in
  order (\<open>False\<close> for a NULL result; once the list is used up every call
  succeeds), the readers that are open, and the host file system.
\<close>

record 'fs state =
  initialized :: int
  errorMessages :: "ErrMsg list"
  searchPath :: "SearchDirInfo list"
  baseDir :: "string option"
  writeDir :: "string option"
  allowSymLinks :: int
  userDir_retval :: "string option"
  openWriteCount :: int
  malloc_outcomes :: "bool list"
  openReaders :: "DirReader list"
  hostfs :: 'fs

text \<open>
  The collaborators the file calls and does not define, taken as parameters:
  \<open>__PHYSFS_pathSeparator\<close>, \<open>__PHYSFS_platformGetUserDir\<close>,
  \<open>__PHYSFS_platformGetUserName\<close>, \<open>getenv("HOME")\<close>,
  \<open>calculateBaseDir\<close>, the opening of a reader behind \<open>getDirReader\<close>
  (\<open>Inl\<close> carries the message of the failure), \<open>createDirs_dependent\<close>
  (its return code and the file system it leaves) and the C library's \<open>remove\<close>
  (its return code, \<open>strerror(errno)\<close> after it, and the file system it
  leaves). The thread identifier that \<open>__PHYSFS_platformGetThreadID\<close> returns is
  the argument \<open>t\<close> of every function below.
\<close>

record 'fs platform =
  pathSeparator :: string
  platformGetUserDir :: "string option"
  platformGetUserName :: "string option"
  getenv_HOME :: "string option"
  calculateBaseDir :: "string option"
  openArchive :: "string \<Rightarrow> string + DirReader"
  createDirs_dependent :: "string \<Rightarrow> 'fs \<Rightarrow> int \<times> 'fs"
  remove_c :: "string \<Rightarrow> 'fs \<Rightarrow> int \<times> string \<times> 'fs"

text \<open>
  Modelled from the spec: the \<open>ERR_*\<close> message macros of physfs_internal.h,
  which is not among the sources. The spec names the error identifiers and says that
  they are opaque strings surfaced verbatim.
\<close>

definition ERR_IS_INITIALIZED :: string where
  "ERR_IS_INITIALIZED = ''IsInitialized''"

definition ERR_NOT_INITIALIZED :: string where
  "ERR_NOT_INITIALIZED = ''NotInitialized''"

definition ERR_INVALID_ARGUMENT :: string where
  "ERR_INVALID_ARGUMENT = ''InvalidArgument''"

definition ERR_FILES_OPEN_WRITE :: string where
  "ERR_FILES_OPEN_WRITE = ''FilesStillOpenForWrite''"

definition ERR_NO_WRITE_DIR :: string where
  "ERR_NO_WRITE_DIR = ''NoWriteDir''"

definition ERR_NO_DIR_CREATE :: string where
  "ERR_NO_DIR_CREATE = ''NoDirCreate''"

definition ERR_OUT_OF_MEMORY :: string where
  "ERR_OUT_OF_MEMORY = ''OutOfMemory''"

definition ERR_NOT_IN_SEARCH_PATH :: string where
  "ERR_NOT_IN_SEARCH_PATH = ''NotInSearchPath''"

text \<open>One call of \<open>malloc\<close>: it takes the next outcome.\<close>

definition malloc :: "'fs state \<Rightarrow> bool \<times> 'fs state" where
  "malloc st =
     (case malloc_outcomes st of
        [] \<Rightarrow> (True, st)
      | ok # rest \<Rightarrow> (ok, st\<lparr>malloc_outcomes := rest\<rparr>))"

section \<open>The error channel\<close>

text \<open>
  The loop of findErrorForCurrentThread over the slots from cursor \<open>i\<close>, which
  stands at position \<open>k\<close>: the position of the first slot of thread \<open>t\<close>,
  or \<open>None\<close> for NULL.
\<close>

fun findError_loop :: "ErrMsg list \<Rightarrow> int \<Rightarrow> nat \<Rightarrow> nat option" where
  "findError_loop [] t k = None"
| "findError_loop (i # rest) t k =
     (if tid i = t then Some k else findError_loop rest t (Suc k))"

definition findErrorForCurrentThread :: "int \<Rightarrow> 'fs state \<Rightarrow> nat option" where
  "findErrorForCurrentThread t st =
     (if errorMessages st \<noteq> [] then findError_loop (errorMessages st) t 0 else None)"

text \<open>
  \<open>__PHYSFS_setError\<close> (an Isabelle name cannot start with an underscore). The
  \<open>strncpy\<close> into the 80 bytes of \<open>errorString\<close>, followed by the
  terminator written at index 79, leaves the first 79 bytes of the message. A slot
  that cannot be allocated leaves the error unrecorded.
\<close>

definition PHYSFS_setError :: "int \<Rightarrow> string \<Rightarrow> 'fs state \<Rightarrow> 'fs state" where
  "PHYSFS_setError t str st =
     (case findErrorForCurrentThread t st of
        Some k \<Rightarrow>
          st\<lparr>errorMessages :=
               (errorMessages st)[k := (errorMessages st ! k)
                  \<lparr>errorAvailable := 1, errorString := take 79 str\<rparr>]\<rparr>
      | None \<Rightarrow>
          (case malloc st of
             (ok, st1) \<Rightarrow>
               if \<not> ok then st1
               else st1\<lparr>errorMessages :=
                      \<lparr>tid = t, errorAvailable = 1, errorString = take 79 str\<rparr>
                        # errorMessages st1\<rparr>))"

definition PHYSFS_getLastError :: "int \<Rightarrow> 'fs state \<Rightarrow> string option \<times> 'fs state" where
  "PHYSFS_getLastError t st =
     (case findErrorForCurrentThread t st of
        None \<Rightarrow> (None, st)
      | Some k \<Rightarrow>
          (let err = errorMessages st ! k in
           if errorAvailable err = 0 then (None, st)
           else (Some (errorString err),
                 st\<lparr>errorMessages := (errorMessages st)[k := err\<lparr>errorAvailable := 0\<rparr>]\<rparr>)))"

text \<open>
  Modelled from the spec: \<open>BAIL_IF_MACRO(c, e, r)\<close> of physfs_internal.h, written
  out at each use below as: when \<open>c\<close> holds, set the error \<open>e\<close> and return
  \<open>r\<close> (the spec: a failing operation returns a failure indicator and writes a
  message to the thread's error slot).
\<close>

section \<open>Initialisation and the write directory\<close>

definition PHYSFS_init ::
  "'fs platform \<Rightarrow> int \<Rightarrow> string option \<Rightarrow> 'fs state \<Rightarrow> int \<times> 'fs state" where
  "PHYSFS_init env t argv0 st =
     (if initialized st \<noteq> 0 then (0, PHYSFS_setError t ERR_IS_INITIALIZED st)
      else if argv0 = None then (0, PHYSFS_setError t ERR_INVALID_ARGUMENT st)
      else (1, st\<lparr>baseDir := calculateBaseDir env, initialized := 1\<rparr>))"

definition PHYSFS_getBaseDir :: "'fs state \<Rightarrow> string option" where
  "PHYSFS_getBaseDir st = baseDir st"

definition PHYSFS_getDirSeparator :: "'fs platform \<Rightarrow> string" where
  "PHYSFS_getDirSeparator env = pathSeparator env"

definition PHYSFS_getWriteDir :: "'fs state \<Rightarrow> string option" where
  "PHYSFS_getWriteDir st = writeDir st"

text \<open>
  PHYSFS_setWriteDir. The old directory is released before the new one is checked, and
  a failed allocation leaves \<open>writeDir\<close> holding malloc's NULL.
\<close>

definition PHYSFS_setWriteDir ::
  "'fs platform \<Rightarrow> int \<Rightarrow> string option \<Rightarrow> 'fs state \<Rightarrow> int \<times> 'fs state" where
  "PHYSFS_setWriteDir env t newDir st =
     (if openWriteCount st > 0 then (0, PHYSFS_setError t ERR_FILES_OPEN_WRITE st)
      else
        (let st1 = (if writeDir st \<noteq> None then st\<lparr>writeDir := None\<rparr> else st) in
         case newDir of
           None \<Rightarrow> (1, st1)
         | Some d \<Rightarrow>
             (case createDirs_dependent env d (hostfs st1) of
                (rc, fs') \<Rightarrow>
                  if rc = 0
                  then (0, PHYSFS_setError t ERR_NO_DIR_CREATE (st1\<lparr>hostfs := fs'\<rparr>))
                  else
                    (case malloc (st1\<lparr>hostfs := fs'\<rparr>) of
                       (ok, st2) \<Rightarrow>
                         if \<not> ok
                         then (0, PHYSFS_setError t ERR_OUT_OF_MEMORY (st2\<lparr>writeDir := None\<rparr>))
                         else (1, st2\<lparr>writeDir := Some d\<rparr>)))))"

section \<open>The search path\<close>

text \<open>
  Modelled from the spec: \<open>getDirReader\<close> and \<open>freeReader\<close>, which
  PHYSFS_addToSearchPath calls and the sources do not define. The spec: the backend that
  claims the path is opened, a failure surfaces the backend's error (the source's
  comment: "This sets the error message"), and a failed mount-add frees its reader.
  An opened reader joins \<open>openReaders\<close>; a freed or closed one leaves it.
\<close>

definition getDirReader ::
  "'fs platform \<Rightarrow> int \<Rightarrow> string \<Rightarrow> 'fs state \<Rightarrow> DirReader option \<times> 'fs state" where
  "getDirReader env t d st =
     (case openArchive env d of
        Inl e \<Rightarrow> (None, PHYSFS_setError t e st)
      | Inr r \<Rightarrow> (Some r, st\<lparr>openReaders := r # openReaders st\<rparr>))"

definition freeReader :: "DirReader \<Rightarrow> 'fs state \<Rightarrow> 'fs state" where
  "freeReader r st = st\<lparr>openReaders := remove1 r (openReaders st)\<rparr>"

text \<open>
  freeSearchDir: \<open>sdi->reader->close(sdi->reader)\<close> closes the node's reader; the
  two calls of \<open>free\<close> release the node, which by then is out of the list.
\<close>

definition freeSearchDir :: "SearchDirInfo \<Rightarrow> 'fs state \<Rightarrow> 'fs state" where
  "freeSearchDir sdi st = st\<lparr>openReaders := remove1 (reader sdi) (openReaders st)\<rparr>"

text \<open>
  The walk of PHYSFS_addToSearchPath to the tail, \<open>while (i != NULL) prev = i;\<close>,
  exactly as written: the body never moves \<open>i\<close>. \<open>None\<close> is a walk that
  never ends.
\<close>

partial_function (option) addToSearchPath_walk ::
  "SearchDirInfo list \<Rightarrow> SearchDirInfo list option \<Rightarrow> SearchDirInfo list option option"
where
  "addToSearchPath_walk i prev =
     (if i \<noteq> [] then addToSearchPath_walk i (Some i) else Some prev)"

declare addToSearchPath_walk.simps [code]

text \<open>
  \<open>prev->next = sdi\<close> for a cursor \<open>prev\<close> into the list \<open>sp\<close>: the
  nodes up to and including the one \<open>prev\<close> stands at, then \<open>sdi\<close>
  (whose \<open>next\<close> is NULL).
\<close>

definition link_after ::
  "SearchDirInfo list \<Rightarrow> SearchDirInfo list \<Rightarrow> SearchDirInfo \<Rightarrow> SearchDirInfo list" where
  "link_after sp prev sdi = take (Suc (length sp - length prev)) sp @ [sdi]"

text \<open>
  PHYSFS_addToSearchPath; \<open>None\<close> when the call never returns. The source writes
  the variable that holds the reader both as \<open>reader\<close> and as
  \<open>dirReader\<close>, and the node's field both as \<open>reader\<close> (in the struct and in
  freeSearchDir) and as \<open>dirReader\<close>; the model reads each pair as one name, so
  that the node holds the reader that getDirReader opened.
\<close>

definition PHYSFS_addToSearchPath ::
  "'fs platform \<Rightarrow> int \<Rightarrow> string option \<Rightarrow> int \<Rightarrow> 'fs state \<Rightarrow> (int \<times> 'fs state) option"
where
  "PHYSFS_addToSearchPath env t newDir appendToPath st =
     (case newDir of
        None \<Rightarrow> Some (0, PHYSFS_setError t ERR_INVALID_ARGUMENT st)
      | Some d \<Rightarrow>
          (case getDirReader env t d st of
             (None, st1) \<Rightarrow> Some (0, st1)
           | (Some r, st1) \<Rightarrow>
               (case malloc st1 of
                  (sdi_ok, st2) \<Rightarrow>
                    if \<not> sdi_ok then Some (0, PHYSFS_setError t ERR_OUT_OF_MEMORY st2)
                    else
                      (case malloc st2 of
                         (name_ok, st3) \<Rightarrow>
                           if \<not> name_ok
                           then Some (0, PHYSFS_setError t ERR_OUT_OF_MEMORY (freeReader r st3))
                           else
                             (let sdi = \<lparr>dirName = d, reader = r\<rparr> in
                              if appendToPath \<noteq> 0
                              then Some (1, st3\<lparr>searchPath := sdi # searchPath st3\<rparr>)
                              else
                                (case addToSearchPath_walk (searchPath st3) None of
                                   None \<Rightarrow> None
                                 | Some None \<Rightarrow> Some (1, st3\<lparr>searchPath := [sdi]\<rparr>)
                                 | Some (Some prev) \<Rightarrow>
                                     Some (1, st3\<lparr>searchPath :=
                                                link_after (searchPath st3) prev sdi\<rparr>)))))))"

text \<open>
  The scan of PHYSFS_removeFromSearchPath. \<open>passed\<close> holds the nodes already
  passed, so \<open>prev\<close> is NULL exactly when it is empty; the result is the list
  with the found node unlinked, and that node.
\<close>

fun removeFromSearchPath_loop ::
  "SearchDirInfo list \<Rightarrow> SearchDirInfo list \<Rightarrow> string
     \<Rightarrow> (SearchDirInfo list \<times> SearchDirInfo) option" where
  "removeFromSearchPath_loop passed [] oldDir = None"
| "removeFromSearchPath_loop passed (i # rest) oldDir =
     (if dirName i = oldDir
      then Some (if passed = [] then rest else passed @ rest, i)
      else removeFromSearchPath_loop (passed @ [i]) rest oldDir)"

definition PHYSFS_removeFromSearchPath ::
  "int \<Rightarrow> string option \<Rightarrow> 'fs state \<Rightarrow> int \<times> 'fs state" where
  "PHYSFS_removeFromSearchPath t oldDir st =
     (case oldDir of
        None \<Rightarrow> (0, PHYSFS_setError t ERR_INVALID_ARGUMENT st)
      | Some d \<Rightarrow>
          (case removeFromSearchPath_loop [] (searchPath st) d of
             Some (sp, i) \<Rightarrow> (1, freeSearchDir i (st\<lparr>searchPath := sp\<rparr>))
           | None \<Rightarrow> (0, PHYSFS_setError t ERR_NOT_IN_SEARCH_PATH st)))"

text \<open>
  PHYSFS_getSearchPath: one allocation for the array, then one per node for the copy
  of its name; \<open>acc\<close> holds the entries \<open>retval[0..x-1]\<close> filled so far.
\<close>

fun getSearchPath_loop ::
  "int \<Rightarrow> SearchDirInfo list \<Rightarrow> string list \<Rightarrow> 'fs state \<Rightarrow> string list option \<times> 'fs state"
where
  "getSearchPath_loop t [] acc st = (Some acc, st)"
| "getSearchPath_loop t (i # rest) acc st =
     (case malloc st of
        (ok, st1) \<Rightarrow>
          if \<not> ok then (None, PHYSFS_setError t ERR_OUT_OF_MEMORY st1)
          else getSearchPath_loop t rest (acc @ [dirName i]) st1)"

definition PHYSFS_getSearchPath :: "int \<Rightarrow> 'fs state \<Rightarrow> string list option \<times> 'fs state" where
  "PHYSFS_getSearchPath t st =
     (case malloc st of
        (ok, st1) \<Rightarrow>
          if \<not> ok then (None, PHYSFS_setError t ERR_OUT_OF_MEMORY st1)
          else getSearchPath_loop t (searchPath st1) [] st1)"

section \<open>Shutting down\<close>

text \<open>
  The loop of freeSearchPath as written: \<open>next = i\<close>, so the cursor never leaves
  the first node and the loop frees it again and again.
\<close>

partial_function (option) freeSearchPath_loop ::
  "SearchDirInfo list \<Rightarrow> 'fs state \<Rightarrow> 'fs state option" where
  "freeSearchPath_loop i st =
     (if i \<noteq> []
      then (let next = i in freeSearchPath_loop next (freeSearchDir (hd i) st))
      else Some st)"

declare freeSearchPath_loop.simps [code]

definition freeSearchPath :: "'fs state \<Rightarrow> 'fs state option" where
  "freeSearchPath st =
     (if searchPath st \<noteq> []
      then (case freeSearchPath_loop (searchPath st) st of
              None \<Rightarrow> None
            | Some st1 \<Rightarrow> Some (st1\<lparr>searchPath := []\<rparr>))
      else Some st)"

definition closeAllFiles :: "'fs state \<Rightarrow> 'fs state" where
  "closeAllFiles st = st"

text \<open>
  Modelled from the spec: \<open>freeErrorMessages\<close>, which PHYSFS_deinit calls and the
  sources do not define. The spec: deinit frees the error slots.
\<close>

definition freeErrorMessages :: "'fs state \<Rightarrow> 'fs state" where
  "freeErrorMessages st = st\<lparr>errorMessages := []\<rparr>"

text \<open>
  PHYSFS_deinit; \<open>None\<close> when it never returns. \<open>free(baseDir)\<close> releases the
  block and leaves the pointer as it is: nothing assigns \<open>baseDir\<close>.
\<close>

definition PHYSFS_deinit :: "'fs platform \<Rightarrow> int \<Rightarrow> 'fs state \<Rightarrow> 'fs state option" where
  "PHYSFS_deinit env t st =
     (if initialized st = 0 then Some (PHYSFS_setError t ERR_NOT_INITIALIZED st)
      else
        (let st1 = closeAllFiles st;
             st2 = snd (PHYSFS_setWriteDir env t None st1)
         in case freeSearchPath st2 of
              None \<Rightarrow> None
            | Some st3 \<Rightarrow>
                Some ((freeErrorMessages st3)\<lparr>allowSymLinks := 0, initialized := 0\<rparr>)))"

section \<open>The user directory\<close>

text \<open>What the C standard leaves undefined, as a value.\<close>

datatype fault = NullPointer | BufferOverflow

text \<open>
  PHYSFS_getUserDir. The value returned at the end is \<open>baseDir\<close>; the computed
  directory goes to the static \<open>retval\<close> only. \<open>strlen(baseDir)\<close> needs a
  base directory, and the \<open>sprintf\<close> prints \<open>uname\<close>, not \<open>str\<close>, so
  a NULL user name reaches \<open>%s\<close>. The buffer of
  \<open>strlen(baseDir) + strlen(str) + 2 * strlen(dirsep) + 6\<close> bytes holds the printed
  string and its terminator when \<open>uname\<close> is not NULL.
\<close>

definition PHYSFS_getUserDir ::
  "'fs platform \<Rightarrow> 'fs state \<Rightarrow> fault + (string option \<times> 'fs state)" where
  "PHYSFS_getUserDir env st =
     (case userDir_retval st of
        Some r \<Rightarrow> Inr (Some r, st)
      | None \<Rightarrow>
          (case platformGetUserDir env of
             Some s \<Rightarrow> Inr (baseDir st, st\<lparr>userDir_retval := Some s\<rparr>)
           | None \<Rightarrow>
               (let dirsep = PHYSFS_getDirSeparator env in
                case getenv_HOME env of
                  Some s \<Rightarrow> Inr (baseDir st, st\<lparr>userDir_retval := Some s\<rparr>)
                | None \<Rightarrow>
                    (case baseDir st of
                       None \<Rightarrow> Inl NullPointer
                     | Some b \<Rightarrow>
                         (case malloc st of
                            (ok, st1) \<Rightarrow>
                              if \<not> ok
                              then Inr (baseDir st1, st1\<lparr>userDir_retval := baseDir st1\<rparr>)
                              else
                                (case platformGetUserName env of
                                   None \<Rightarrow> Inl NullPointer
                                 | Some uname \<Rightarrow>
                                     Inr (baseDir st1,
                                          st1\<lparr>userDir_retval :=
                                                Some (b @ dirsep @ ''users'' @ dirsep @ uname)\<rparr>)))))))"

section \<open>Path translation, mkdir and delete\<close>

text \<open>
  convertToDependentNotation builds its result in a block from \<open>malloc\<close>, with
  \<open>strcpy\<close>, \<open>strcat\<close> and writes through the pointer \<open>i2\<close>. The block is
  a list of bytes, \<open>None\<close> for a byte nothing has written yet; a pointer into it
  is an offset. A write checks the bounds of the block (\<open>None\<close>: it would leave
  the block), and a string is read up to its terminator (\<open>None\<close>: the read meets
  an unwritten byte or the end of the block first). The strings passed in are C
  strings: their bytes up to the terminator.
\<close>

type_synonym buffer = "char option list"

definition NUL :: char where
  "NUL = CHR 0x00"

fun c_string :: "buffer \<Rightarrow> string option" where
  "c_string [] = None"
| "c_string (None # bs) = None"
| "c_string (Some c # bs) = (if c = NUL then Some [] else map_option ((#) c) (c_string bs))"

definition poke :: "buffer \<Rightarrow> nat \<Rightarrow> string \<Rightarrow> buffer option" where
  "poke buf off bytes =
     (if off + length bytes \<le> length buf
      then Some (take off buf @ map Some bytes @ drop (off + length bytes) buf)
      else None)"

definition strcpy :: "buffer \<Rightarrow> nat \<Rightarrow> string \<Rightarrow> buffer option" where
  "strcpy buf off src = poke buf off (src @ [NUL])"

definition strcat :: "buffer \<Rightarrow> string \<Rightarrow> buffer option" where
  "strcat buf src =
     (case c_string buf of
        None \<Rightarrow> None
      | Some cur \<Rightarrow> strcpy buf (length cur) src)"

text \<open>
  The loop that enlarges \<open>allocSize\<close> for a separator of several bytes (it runs
  only when \<open>sepsize > 1\<close>).
\<close>

fun allocSize_loop :: "string \<Rightarrow> nat \<Rightarrow> nat \<Rightarrow> nat" where
  "allocSize_loop [] sepsize allocSize = allocSize"
| "allocSize_loop (c # str) sepsize allocSize =
     allocSize_loop str sepsize
       (if c = CHR ''/'' then allocSize + (sepsize - 1) else allocSize)"

text \<open>
  The copying loop, \<open>i1\<close> over \<open>dirName\<close> and \<open>i2\<close> into the block. At a
  \<open>/\<close> the separator is copied with its terminator and \<open>i2\<close> moves by
  \<open>sepsize\<close>; the increment of the \<open>for\<close> statement then moves it once
  more, past that terminator.
\<close>

fun convert_loop :: "string \<Rightarrow> string \<Rightarrow> nat \<Rightarrow> buffer \<Rightarrow> (nat \<times> buffer) option" where
  "convert_loop dirsep [] i2 buf = Some (i2, buf)"
| "convert_loop dirsep (c # i1) i2 buf =
     (if c = CHR ''/''
      then (case strcpy buf i2 dirsep of
              None \<Rightarrow> None
            | Some buf' \<Rightarrow> convert_loop dirsep i1 (i2 + length dirsep + 1) buf')
      else (case poke buf i2 [c] of
              None \<Rightarrow> None
            | Some buf' \<Rightarrow> convert_loop dirsep i1 (i2 + 1) buf'))"

text \<open>
  The writes of convertToDependentNotation into a fresh block of \<open>allocSize\<close>
  bytes, in the order of the source; the last step is \<open>strcpy(str, append)\<close>,
  which starts again at the beginning of the block.
\<close>

definition convert_fill ::
  "string \<Rightarrow> nat \<Rightarrow> string option \<Rightarrow> string \<Rightarrow> string option \<Rightarrow> buffer option" where
  "convert_fill dirsep allocSize prepend dname append' =
     do {
       b0 \<leftarrow> poke (replicate allocSize None) 0 [NUL];
       b1 \<leftarrow> (case prepend of
                None \<Rightarrow> Some b0
              | Some p \<Rightarrow> do { b \<leftarrow> strcpy b0 0 p; strcat b dirsep });
       cur \<leftarrow> c_string b1;
       (i2, b2) \<leftarrow> convert_loop dirsep dname (length cur) b1;
       b3 \<leftarrow> poke b2 i2 [NUL];
       (case append' of
          None \<Rightarrow> Some b3
        | Some a \<Rightarrow> do { b \<leftarrow> strcat b3 dirsep; strcpy b 0 a })
     }"

text \<open>
  convertToDependentNotation: \<open>Inr (Some s, _)\<close> when it returns the block, read
  by the caller as the C string \<open>s\<close>; \<open>Inr (None, _)\<close> when it returns NULL;
  \<open>Inl\<close> when \<open>strlen(writeDir)\<close> meets NULL or a write leaves the block.
\<close>

definition convertToDependentNotation ::
  "'fs platform \<Rightarrow> int \<Rightarrow> string option \<Rightarrow> string \<Rightarrow> string option \<Rightarrow> 'fs state
     \<Rightarrow> fault + (string option \<times> 'fs state)" where
  "convertToDependentNotation env t prepend dname append' st =
     (let dirsep = PHYSFS_getDirSeparator env;
          sepsize = length dirsep
      in case writeDir st of
           None \<Rightarrow> Inl NullPointer
         | Some w \<Rightarrow>
             (let size0 = length dname + length w + sepsize + 1;
                  size1 = (case prepend of None \<Rightarrow> size0 | Some p \<Rightarrow> size0 + (length p + sepsize));
                  size2 = (case append' of None \<Rightarrow> size1 | Some a \<Rightarrow> size1 + (length a + sepsize));
                  allocSize = (if sepsize > 1 then allocSize_loop dname sepsize size2 else size2)
              in case malloc st of
                   (ok, st1) \<Rightarrow>
                     if \<not> ok then Inr (None, PHYSFS_setError t ERR_OUT_OF_MEMORY st1)
                     else
                       (case convert_fill dirsep allocSize prepend dname append' of
                          None \<Rightarrow> Inl BufferOverflow
                        | Some buf \<Rightarrow>
                            (case c_string buf of
                               None \<Rightarrow> Inl BufferOverflow
                             | Some s \<Rightarrow> Inr (Some s, st1)))))"

definition PHYSFS_mkdir ::
  "'fs platform \<Rightarrow> int \<Rightarrow> string \<Rightarrow> 'fs state \<Rightarrow> fault + (int \<times> 'fs state)" where
  "PHYSFS_mkdir env t dname st =
     (if writeDir st = None then Inr (0, PHYSFS_setError t ERR_NO_WRITE_DIR st)
      else
        (case convertToDependentNotation env t (writeDir st) dname None st of
           Inl f \<Rightarrow> Inl f
         | Inr (None, st1) \<Rightarrow> Inr (0, st1)
         | Inr (Some str, st1) \<Rightarrow>
             (case createDirs_dependent env str (hostfs st1) of
                (rc, fs') \<Rightarrow> Inr (rc, st1\<lparr>hostfs := fs'\<rparr>))))"

text \<open>
  PHYSFS_delete (its parameter is \<open>filename\<close>; the body writes \<open>fileName\<close>).
  \<open>rc = (rc == 0)\<close> turns the result of \<open>remove\<close> into a truth value.
\<close>

definition PHYSFS_delete ::
  "'fs platform \<Rightarrow> int \<Rightarrow> string \<Rightarrow> 'fs state \<Rightarrow> fault + (int \<times> 'fs state)" where
  "PHYSFS_delete env t filename st =
     (if writeDir st = None then Inr (0, PHYSFS_setError t ERR_NO_WRITE_DIR st)
      else
        (case convertToDependentNotation env t (writeDir st) filename None st of
           Inl f \<Rightarrow> Inl f
         | Inr (None, st1) \<Rightarrow> Inr (0, st1)
         | Inr (Some str, st1) \<Rightarrow>
             (case remove_c env str (hostfs st1) of
                (rc, msg, fs') \<Rightarrow>
                  if rc = 0 then Inr (1, st1\<lparr>hostfs := fs'\<rparr>)
                  else Inr (0, PHYSFS_setError t msg (st1\<lparr>hostfs := fs'\<rparr>)))))"

section \<open>States and platforms to run the functions on\<close>

text \<open>
  The state the static initialisers of the file give (every pointer NULL, every
  flag 0), with the outcomes of the coming allocations and a host file system.
\<close>

definition initial_state :: "bool list \<Rightarrow> 'fs \<Rightarrow> 'fs state" where
  "initial_state ms fs =
     \<lparr>initialized = 0, errorMessages = [], searchPath = [], baseDir = None,
      writeDir = None, allowSymLinks = 0, userDir_retval = None, openWriteCount = 0,
      malloc_outcomes = ms, openReaders = [], hostfs = fs\<rparr>"

text \<open>
  A platform with the separator \<open>/\<close>, on which every path opens as the reader
  numbered by the length of its name, and whose file system is the list of the host
  calls made on it.
\<close>

definition slash_platform :: "string list platform" where
  "slash_platform =
     \<lparr>pathSeparator = ''/'', platformGetUserDir = Some ''/home/u'',
      platformGetUserName = Some ''u'', getenv_HOME = Some ''/env/home'',
      calculateBaseDir = Some ''/app'',
      openArchive = (\<lambda>d. Inr (length d)),
      createDirs_dependent = (\<lambda>p fs. (1, (''mkdir '' @ p) # fs)),
      remove_c = (\<lambda>p fs. (0, [], (''remove '' @ p) # fs))\<rparr>"

text \<open>States with open writers, with mounts, and with a write directory.\<close>

definition writers_open_state :: "string list state" where
  "writers_open_state = (initial_state [] [])\<lparr>writeDir := Some ''/old'', openWriteCount := 1\<rparr>"

definition one_mount_state :: "string list state" where
  "one_mount_state =
     (initial_state [] [])\<lparr>initialized := 1, baseDir := Some ''/app'',
        searchPath := [\<lparr>dirName = ''/data'', reader = 5\<rparr>], openReaders := [5]\<rparr>"

definition two_mount_state :: "string list state" where
  "two_mount_state =
     (initial_state [] [])\<lparr>initialized := 1,
        searchPath := [\<lparr>dirName = ''/a'', reader = 2\<rparr>, \<lparr>dirName = ''/b'', reader = 2\<rparr>],
        openReaders := [2, 2]\<rparr>"

definition write_root_state :: "string list state" where
  "write_root_state = (initial_state [] [])\<lparr>initialized := 1, writeDir := Some ''/w''\<rparr>"


section \<open>Properties of the error channel\<close>

lemma findError_loop_Some:
  "findError_loop xs t k = Some j \<Longrightarrow> k \<le> j \<and> j - k < length xs \<and> tid (xs ! (j - k)) = t"
proof (induction xs arbitrary: k)
  case Nil
  then show ?case by simp
next
  case (Cons x xs)
  show ?case
  proof (cases "tid x = t")
    case True
    with Cons.prems show ?thesis by simp
  next
    case False
    with Cons.prems have "findError_loop xs t (Suc k) = Some j" by simp
    from Cons.IH[OF this] show ?thesis
      by (auto simp: nth_Cons' Suc_diff_le)
  qed
qed

text \<open>The search looks at the thread identifiers of the slots only.\<close>

lemma findError_loop_tids:
  "map tid xs = map tid ys \<Longrightarrow> findError_loop xs t k = findError_loop ys t k"
proof (induction xs arbitrary: ys k)
  case Nil
  then show ?case by simp
next
  case (Cons x xs)
  then obtain y ys' where ys: "ys = y # ys'" by (cases ys) auto
  with Cons.prems have "tid x = tid y" "map tid xs = map tid ys'" by auto
  with Cons.IH[of ys'] ys show ?case by simp
qed

lemma findError_loop_shift:
  "findError_loop xs t (Suc k) = map_option Suc (findError_loop xs t k)"
  by (induction xs arbitrary: k) auto

lemma find_Some:
  "findErrorForCurrentThread t st = Some j \<Longrightarrow>
     j < length (errorMessages st) \<and> tid (errorMessages st ! j) = t"
  by (auto simp: findErrorForCurrentThread_def split: if_splits dest: findError_loop_Some)

lemma find_tids:
  "map tid (errorMessages st) = map tid (errorMessages st') \<Longrightarrow>
     findErrorForCurrentThread t st = findErrorForCurrentThread t st'"
  unfolding findErrorForCurrentThread_def
  using findError_loop_tids[of "errorMessages st" "errorMessages st'" t 0]
  by (cases "errorMessages st"; cases "errorMessages st'") auto

lemma malloc_errorMessages: "errorMessages (snd (malloc st)) = errorMessages st"
  by (simp add: malloc_def split: list.splits)

lemma find_malloc:
  "findErrorForCurrentThread t (snd (malloc st)) = findErrorForCurrentThread t st"
  by (simp add: findErrorForCurrentThread_def malloc_errorMessages)

text \<open>The three ways \<open>__PHYSFS_setError\<close> ends.\<close>

lemma setError_found:
  "findErrorForCurrentThread t st = Some k \<Longrightarrow>
     PHYSFS_setError t msg st =
       st\<lparr>errorMessages := (errorMessages st)[k := (errorMessages st ! k)
            \<lparr>errorAvailable := 1, errorString := take 79 msg\<rparr>]\<rparr>"
  by (simp add: PHYSFS_setError_def)

lemma setError_new:
  "findErrorForCurrentThread t st = None \<Longrightarrow> fst (malloc st) \<Longrightarrow>
     PHYSFS_setError t msg st =
       (snd (malloc st))\<lparr>errorMessages :=
          \<lparr>tid = t, errorAvailable = 1, errorString = take 79 msg\<rparr> # errorMessages st\<rparr>"
  by (cases "malloc st") (simp add: PHYSFS_setError_def malloc_errorMessages[of st, symmetric])

lemma setError_unrecorded:
  "findErrorForCurrentThread t st = None \<Longrightarrow> \<not> fst (malloc st) \<Longrightarrow>
     PHYSFS_setError t msg st = snd (malloc st)"
  by (cases "malloc st") (simp add: PHYSFS_setError_def)

text \<open>
  Once a slot exists or can be allocated, the slot of thread \<open>t\<close> holds the
  message after \<open>__PHYSFS_setError\<close>, flagged as available.
\<close>

lemma setError_same:
  assumes "findErrorForCurrentThread t st \<noteq> None \<or> fst (malloc st)"
  shows "\<exists>k. findErrorForCurrentThread t (PHYSFS_setError t msg st) = Some k
        \<and> k < length (errorMessages (PHYSFS_setError t msg st))
        \<and> errorMessages (PHYSFS_setError t msg st) ! k
            = \<lparr>tid = t, errorAvailable = 1, errorString = take 79 msg\<rparr>"
proof (cases "findErrorForCurrentThread t st")
  case (Some k)
  from find_Some[OF Some] have k: "k < length (errorMessages st)" "tid (errorMessages st ! k) = t"
    by auto
  let ?st' = "PHYSFS_setError t msg st"
  have em: "errorMessages ?st' = (errorMessages st)[k := (errorMessages st ! k)
                  \<lparr>errorAvailable := 1, errorString := take 79 msg\<rparr>]"
    by (simp add: setError_found[OF Some])
  have "map tid (errorMessages ?st') = map tid (errorMessages st)"
    unfolding em using k by (simp add: map_update list_update_same_conv)
  then have "findErrorForCurrentThread t ?st' = Some k"
    using find_tids[of ?st' st t] Some by simp
  moreover have "errorMessages ?st' ! k = \<lparr>tid = t, errorAvailable = 1, errorString = take 79 msg\<rparr>"
    unfolding em using k by simp
  ultimately show ?thesis using k em by simp
next
  case None
  with assms have ok: "fst (malloc st)" by simp
  let ?st' = "PHYSFS_setError t msg st"
  have em: "errorMessages ?st' =
      \<lparr>tid = t, errorAvailable = 1, errorString = take 79 msg\<rparr> # errorMessages st"
    by (simp add: setError_new[OF None ok])
  have "findErrorForCurrentThread t ?st' = Some 0"
    by (simp add: findErrorForCurrentThread_def em)
  then show ?thesis using em by simp
qed

lemma getLastError_after_set:
  assumes "findErrorForCurrentThread t st \<noteq> None \<or> fst (malloc st)"
  shows "fst (PHYSFS_getLastError t (PHYSFS_setError t msg st)) = Some (take 79 msg)"
    and "fst (PHYSFS_getLastError t (snd (PHYSFS_getLastError t (PHYSFS_setError t msg st)))) = None"
proof -
  let ?st1 = "PHYSFS_setError t msg st"
  from setError_same[OF assms, of msg] obtain k where
    f: "findErrorForCurrentThread t ?st1 = Some k" and
    k: "k < length (errorMessages ?st1)" and
    e: "errorMessages ?st1 ! k = \<lparr>tid = t, errorAvailable = 1, errorString = take 79 msg\<rparr>"
    by blast
  show "fst (PHYSFS_getLastError t ?st1) = Some (take 79 msg)"
    using f e by (simp add: PHYSFS_getLastError_def)
  let ?st2 = "snd (PHYSFS_getLastError t ?st1)"
  have em2: "errorMessages ?st2 =
      (errorMessages ?st1)[k := \<lparr>tid = t, errorAvailable = 0, errorString = take 79 msg\<rparr>]"
    using f e by (simp add: PHYSFS_getLastError_def)
  have "map tid (errorMessages ?st2) = map tid (errorMessages ?st1)"
    unfolding em2 using k e by (simp add: map_update list_update_same_conv)
  then have f2: "findErrorForCurrentThread t ?st2 = Some k"
    using find_tids[of ?st2 ?st1 t] f by simp
  have "errorAvailable (errorMessages ?st2 ! k) = 0"
    unfolding em2 using k by simp
  with f2 show "fst (PHYSFS_getLastError t ?st2) = None"
    by (simp add: PHYSFS_getLastError_def)
qed

lemma getLastError_nothing_pending:
  assumes "\<forall>e\<in>set (errorMessages st). tid e = t \<longrightarrow> errorAvailable e = 0"
  shows "PHYSFS_getLastError t st = (None, st)"
proof (cases "findErrorForCurrentThread t st")
  case None
  then show ?thesis by (simp add: PHYSFS_getLastError_def)
next
  case (Some k)
  from find_Some[OF Some] assms have "errorAvailable (errorMessages st ! k) = 0"
    by (metis nth_mem)
  with Some show ?thesis by (simp add: PHYSFS_getLastError_def)
qed

text \<open>
  Claim C5. PHYSFS_getLastError is destructive. On any thread \<open>t\<close> and in any
  state, once \<open>__PHYSFS_setError\<close> has set a message (the thread has a slot, or
  the slot can be allocated), the first call of PHYSFS_getLastError returns the message
  as the slot holds it, which is its first 79 bytes and so the message itself when it
  has at most 79 bytes, and the second consecutive call returns NULL. A call made while
  no slot of the calling thread is flagged as available returns NULL and changes
  nothing.
\<close>

theorem getLastError_destructive:
  "(findErrorForCurrentThread t st \<noteq> None \<or> fst (malloc st) \<longrightarrow>
      fst (PHYSFS_getLastError t (PHYSFS_setError t msg st)) = Some (take 79 msg)
      \<and> (length msg \<le> 79 \<longrightarrow>
           fst (PHYSFS_getLastError t (PHYSFS_setError t msg st)) = Some msg)
      \<and> fst (PHYSFS_getLastError t
             (snd (PHYSFS_getLastError t (PHYSFS_setError t msg st)))) = None)
   \<and> ((\<forall>e\<in>set (errorMessages st). tid e = t \<longrightarrow> errorAvailable e = 0) \<longrightarrow>
        PHYSFS_getLastError t st = (None, st))"
  using getLastError_after_set[of t st msg] getLastError_nothing_pending[of st t]
  by simp

theorem getLastError_destructive_witness:
  "fst (PHYSFS_getLastError 7 (PHYSFS_setError 7 ''NoWriteDir'' (initial_state [] ())))
     = Some ''NoWriteDir''
   \<and> fst (PHYSFS_getLastError 7 (snd (PHYSFS_getLastError 7
            (PHYSFS_setError 7 ''NoWriteDir'' (initial_state [] ()))))) = None
   \<and> PHYSFS_getLastError 7 (initial_state [] ()) = (None, initial_state [] ())"
  using getLastError_destructive[of 7 "initial_state [] ()" "''NoWriteDir''"]
  by (simp add: initial_state_def malloc_def)

text \<open>
  What \<open>__PHYSFS_setError\<close> run as thread \<open>t\<close> does to the search of another
  thread: a new slot at the head moves every position by one, and nothing else changes.
\<close>

lemma setError_find_other:
  assumes "t \<noteq> t'"
  shows "findErrorForCurrentThread t' (PHYSFS_setError t msg st) =
           (if findErrorForCurrentThread t st = None \<and> fst (malloc st)
            then map_option Suc (findErrorForCurrentThread t' st)
            else findErrorForCurrentThread t' st)"
proof (cases "findErrorForCurrentThread t st")
  case (Some k)
  from find_Some[OF Some] have k: "k < length (errorMessages st)" "tid (errorMessages st ! k) = t"
    by auto
  let ?st' = "PHYSFS_setError t msg st"
  have em: "errorMessages ?st' = (errorMessages st)[k := (errorMessages st ! k)
                  \<lparr>errorAvailable := 1, errorString := take 79 msg\<rparr>]"
    by (simp add: setError_found[OF Some])
  have "map tid (errorMessages ?st') = map tid (errorMessages st)"
    unfolding em using k by (simp add: map_update list_update_same_conv)
  then show ?thesis using find_tids[of ?st' st t'] Some by simp
next
  case None
  show ?thesis
  proof (cases "fst (malloc st)")
    case True
    have em: "errorMessages (PHYSFS_setError t msg st) =
        \<lparr>tid = t, errorAvailable = 1, errorString = take 79 msg\<rparr> # errorMessages st"
      by (simp add: setError_new[OF None True])
    show ?thesis using None True assms
      by (simp add: findErrorForCurrentThread_def em findError_loop_shift)
  next
    case False
    show ?thesis using None False
      by (simp add: setError_unrecorded[OF None False] find_malloc)
  qed
qed

text \<open>
  Claim C6. The error channel is keyed by the thread identifier: for two distinct
  thread identifiers \<open>t\<close> and \<open>t'\<close>, in any state and for any message, setting an
  error while running as thread \<open>t\<close> does not change what PHYSFS_getLastError
  returns when called as thread \<open>t'\<close>.
\<close>

theorem setError_noninterference:
  assumes "t \<noteq> t'"
  shows "fst (PHYSFS_getLastError t' (PHYSFS_setError t msg st)) =
         fst (PHYSFS_getLastError t' st)"
proof (cases "findErrorForCurrentThread t' st")
  case None
  with setError_find_other[OF assms, of msg st]
  have "findErrorForCurrentThread t' (PHYSFS_setError t msg st) = None" by simp
  with None show ?thesis by (simp add: PHYSFS_getLastError_def)
next
  case (Some j)
  from find_Some[OF Some] have j: "j < length (errorMessages st)" "tid (errorMessages st ! j) = t'"
    by auto
  show ?thesis
  proof (cases "findErrorForCurrentThread t st")
    case k: (Some k)
    from find_Some[OF k] have kk: "k < length (errorMessages st)" "tid (errorMessages st ! k) = t"
      by auto
    with j assms have ne: "k \<noteq> j" by auto
    have em: "errorMessages (PHYSFS_setError t msg st) = (errorMessages st)[k := (errorMessages st ! k)
                  \<lparr>errorAvailable := 1, errorString := take 79 msg\<rparr>]"
      by (simp add: setError_found[OF k])
    have f: "findErrorForCurrentThread t' (PHYSFS_setError t msg st) = Some j"
      using setError_find_other[OF assms, of msg st] k Some by simp
    have "errorMessages (PHYSFS_setError t msg st) ! j = errorMessages st ! j"
      unfolding em using ne by simp
    with f Some show ?thesis by (simp add: PHYSFS_getLastError_def Let_def)
  next
    case None
    show ?thesis
    proof (cases "fst (malloc st)")
      case True
      have em: "errorMessages (PHYSFS_setError t msg st) =
          \<lparr>tid = t, errorAvailable = 1, errorString = take 79 msg\<rparr> # errorMessages st"
        by (simp add: setError_new[OF None True])
      have f: "findErrorForCurrentThread t' (PHYSFS_setError t msg st) = Some (Suc j)"
        using setError_find_other[OF assms, of msg st] None True Some by simp
      show ?thesis using f Some em by (simp add: PHYSFS_getLastError_def Let_def)
    next
      case False
      show ?thesis unfolding setError_unrecorded[OF None False]
        by (simp add: PHYSFS_getLastError_def find_malloc malloc_errorMessages Let_def
            split: option.splits)
    qed
  qed
qed

theorem setError_noninterference_witness:
  "fst (PHYSFS_getLastError 2
          (PHYSFS_setError 1 ''OutOfMemory''
             (PHYSFS_setError 2 ''NoWriteDir'' (initial_state [] ()))))
     = Some ''NoWriteDir''"
proof -
  have ne: "(1::int) \<noteq> 2" by simp
  have "fst (PHYSFS_getLastError 2 (PHYSFS_setError 2 ''NoWriteDir'' (initial_state [] ())))
          = Some ''NoWriteDir''"
    by (simp add: PHYSFS_getLastError_def PHYSFS_setError_def findErrorForCurrentThread_def
        initial_state_def malloc_def)
  with setError_noninterference[OF ne, of "''OutOfMemory''"
      "PHYSFS_setError 2 ''NoWriteDir'' (initial_state [] ())"]
  show ?thesis by simp
qed

section \<open>Properties of initialisation and of the write directory\<close>

text \<open>
  \<open>malloc\<close> and \<open>__PHYSFS_setError\<close> touch the outcomes of the allocations
  and the error slots, and no other part of the state.
\<close>

lemma malloc_fields:
  "initialized (snd (malloc st)) = initialized st"
  "searchPath (snd (malloc st)) = searchPath st"
  "baseDir (snd (malloc st)) = baseDir st"
  "writeDir (snd (malloc st)) = writeDir st"
  "allowSymLinks (snd (malloc st)) = allowSymLinks st"
  "userDir_retval (snd (malloc st)) = userDir_retval st"
  "openWriteCount (snd (malloc st)) = openWriteCount st"
  "openReaders (snd (malloc st)) = openReaders st"
  "hostfs (snd (malloc st)) = hostfs st"
  by (simp_all add: malloc_def split: list.splits)

lemma setError_fields:
  "initialized (PHYSFS_setError t msg st) = initialized st"
  "searchPath (PHYSFS_setError t msg st) = searchPath st"
  "baseDir (PHYSFS_setError t msg st) = baseDir st"
  "writeDir (PHYSFS_setError t msg st) = writeDir st"
  "allowSymLinks (PHYSFS_setError t msg st) = allowSymLinks st"
  "userDir_retval (PHYSFS_setError t msg st) = userDir_retval st"
  "openWriteCount (PHYSFS_setError t msg st) = openWriteCount st"
  "openReaders (PHYSFS_setError t msg st) = openReaders st"
  "hostfs (PHYSFS_setError t msg st) = hostfs st"
  by (cases "findErrorForCurrentThread t st"; cases "malloc st";
      use malloc_fields[of st] in \<open>simp add: PHYSFS_setError_def\<close>)+

text \<open>
  Claim C7. In every state in which a writable file handle is open
  (\<open>openWriteCount > 0\<close>), PHYSFS_setWriteDir fails for every argument, a new
  directory or NULL: it returns 0, what it does to the state is to set the error
  FilesStillOpenForWrite, the write directory and the host file system stay as they
  were, and (the thread having a slot or the slot being allocatable) the next
  PHYSFS_getLastError returns FilesStillOpenForWrite.
\<close>

theorem setWriteDir_files_open:
  assumes "openWriteCount st > 0"
  shows "PHYSFS_setWriteDir env t newDir st = (0, PHYSFS_setError t ERR_FILES_OPEN_WRITE st)
       \<and> writeDir (snd (PHYSFS_setWriteDir env t newDir st)) = writeDir st
       \<and> hostfs (snd (PHYSFS_setWriteDir env t newDir st)) = hostfs st
       \<and> (findErrorForCurrentThread t st \<noteq> None \<or> fst (malloc st) \<longrightarrow>
            fst (PHYSFS_getLastError t (snd (PHYSFS_setWriteDir env t newDir st)))
              = Some ''FilesStillOpenForWrite'')"
proof -
  have r: "PHYSFS_setWriteDir env t newDir st = (0, PHYSFS_setError t ERR_FILES_OPEN_WRITE st)"
    using assms by (simp add: PHYSFS_setWriteDir_def)
  show ?thesis unfolding r
    using getLastError_after_set(1)[of t st ERR_FILES_OPEN_WRITE]
    by (simp add: setError_fields ERR_FILES_OPEN_WRITE_def)
qed

theorem setWriteDir_files_open_witness:
  "fst (PHYSFS_setWriteDir slash_platform 1 (Some ''/new'') writers_open_state) = 0
   \<and> writeDir (snd (PHYSFS_setWriteDir slash_platform 1 (Some ''/new'') writers_open_state))
       = Some ''/old''
   \<and> fst (PHYSFS_getLastError 1
            (snd (PHYSFS_setWriteDir slash_platform 1 (Some ''/new'') writers_open_state)))
       = Some ''FilesStillOpenForWrite''"
proof -
  have h: "openWriteCount writers_open_state > 0"
    and m: "fst (malloc writers_open_state)"
    and w: "writeDir writers_open_state = Some ''/old''"
    by (simp_all add: writers_open_state_def initial_state_def malloc_def)
  from setWriteDir_files_open[OF h, of slash_platform 1 "Some ''/new''"] m w
  show ?thesis by auto
qed

text \<open>
  Claim C10, as amended. PHYSFS_init with a NULL \<open>argv0\<close> fails in every state
  and leaves the initialized flag and the base directory as they were. The message it
  sets is InvalidArgument on an uninitialized state and IsInitialized on an initialized
  one, where the check of the flag comes first.
\<close>

theorem init_null_argv0:
  "fst (PHYSFS_init env t None st) = 0
   \<and> snd (PHYSFS_init env t None st) =
       PHYSFS_setError t (if initialized st \<noteq> 0 then ERR_IS_INITIALIZED else ERR_INVALID_ARGUMENT) st
   \<and> initialized (snd (PHYSFS_init env t None st)) = initialized st
   \<and> baseDir (snd (PHYSFS_init env t None st)) = baseDir st
   \<and> (findErrorForCurrentThread t st \<noteq> None \<or> fst (malloc st) \<longrightarrow>
        fst (PHYSFS_getLastError t (snd (PHYSFS_init env t None st))) =
          Some (if initialized st \<noteq> 0 then ''IsInitialized'' else ''InvalidArgument''))"
proof -
  have r: "PHYSFS_init env t None st =
      (0, PHYSFS_setError t (if initialized st \<noteq> 0 then ERR_IS_INITIALIZED else ERR_INVALID_ARGUMENT) st)"
    by (simp add: PHYSFS_init_def)
  show ?thesis unfolding r
    using getLastError_after_set(1)[of t st ERR_IS_INITIALIZED]
      getLastError_after_set(1)[of t st ERR_INVALID_ARGUMENT]
    by (simp add: setError_fields ERR_IS_INITIALIZED_def ERR_INVALID_ARGUMENT_def)
qed

theorem init_null_argv0_witness:
  "fst (PHYSFS_init slash_platform 1 None (initial_state [] [])) = 0
   \<and> initialized (snd (PHYSFS_init slash_platform 1 None (initial_state [] []))) = 0
   \<and> baseDir (snd (PHYSFS_init slash_platform 1 None (initial_state [] []))) = None
   \<and> fst (PHYSFS_getLastError 1 (snd (PHYSFS_init slash_platform 1 None (initial_state [] []))))
       = Some ''InvalidArgument''"
proof -
  have m: "fst (malloc (initial_state [] ([]::string list)))"
    and i: "initialized (initial_state [] ([]::string list)) = 0"
    and b: "baseDir (initial_state [] ([]::string list)) = None"
    by (simp_all add: initial_state_def malloc_def)
  from init_null_argv0[of slash_platform 1 "initial_state [] []"] m i b
  show ?thesis by auto
qed

text \<open>
  On an initialized state the call with a NULL \<open>argv0\<close> reports IsInitialized,
  not InvalidArgument.
\<close>

theorem init_null_argv0_initialized_counterexample:
  "fst (PHYSFS_getLastError 1
          (snd (PHYSFS_init slash_platform 1 None ((initial_state [] [])\<lparr>initialized := 1\<rparr>))))
     = Some ERR_IS_INITIALIZED
   \<and> fst (PHYSFS_getLastError 1
          (snd (PHYSFS_init slash_platform 1 None ((initial_state [] [])\<lparr>initialized := 1\<rparr>))))
     \<noteq> Some ERR_INVALID_ARGUMENT"
  by (simp add: PHYSFS_init_def PHYSFS_getLastError_def PHYSFS_setError_def
      findErrorForCurrentThread_def initial_state_def malloc_def
      ERR_IS_INITIALIZED_def ERR_INVALID_ARGUMENT_def)

section \<open>Properties of the search path\<close>

text \<open>The walk to the tail ends on the empty list only, and then at once.\<close>

lemma walk_Some: "addToSearchPath_walk i prev = Some y \<Longrightarrow> i = []"
  by (rule addToSearchPath_walk.raw_induct[where P="\<lambda>i prev y. i = []"])
     (auto split: if_splits)

lemma walk_nonempty: "i \<noteq> [] \<Longrightarrow> addToSearchPath_walk i prev = None"
  using walk_Some by (cases "addToSearchPath_walk i prev") auto

lemma walk_empty: "addToSearchPath_walk [] prev = Some prev"
  by (simp add: addToSearchPath_walk.simps)

lemma walk_result:
  "addToSearchPath_walk i None = Some y \<Longrightarrow> i = [] \<and> y = None"
  using walk_Some[of i None y] walk_empty[of None] by auto

text \<open>A successful call, with every allocation succeeding.\<close>

lemma addToSearchPath_prepends:
  assumes "openArchive env d = Inr r" "malloc_outcomes st = []" "appendToPath \<noteq> 0"
  shows "PHYSFS_addToSearchPath env t (Some d) appendToPath st =
           Some (1, st\<lparr>openReaders := r # openReaders st,
                       searchPath := \<lparr>dirName = d, reader = r\<rparr> # searchPath st\<rparr>)"
  using assms
  by (simp add: PHYSFS_addToSearchPath_def getDirReader_def malloc_def Let_def)

lemma addToSearchPath_tail_empty:
  assumes "openArchive env d = Inr r" "malloc_outcomes st = []" "searchPath st = []"
  shows "PHYSFS_addToSearchPath env t (Some d) 0 st =
           Some (1, st\<lparr>openReaders := r # openReaders st,
                       searchPath := [\<lparr>dirName = d, reader = r\<rparr>]\<rparr>)"
  using assms
  by (simp add: PHYSFS_addToSearchPath_def getDirReader_def malloc_def Let_def walk_empty)

lemma addToSearchPath_tail_nonempty:
  assumes "openArchive env d = Inr r" "malloc_outcomes st = []" "searchPath st \<noteq> []"
  shows "PHYSFS_addToSearchPath env t (Some d) 0 st = None"
  using assms
  by (simp add: PHYSFS_addToSearchPath_def getDirReader_def malloc_def Let_def walk_nonempty)

lemma getSearchPath_loop_fst:
  "fst (getSearchPath_loop t sp acc st) =
     (if list_all id (take (length sp) (malloc_outcomes st))
      then Some (acc @ map dirName sp) else None)"
proof (induction sp arbitrary: acc st)
  case Nil
  then show ?case by simp
next
  case (Cons i rest)
  show ?case
  proof (cases "malloc_outcomes st")
    case Nil
    then show ?thesis using Cons.IH[of "acc @ [dirName i]" st]
      by (simp add: malloc_def)
  next
    case (Cons ok more)
    then show ?thesis using Cons.IH[of "acc @ [dirName i]" "st\<lparr>malloc_outcomes := more\<rparr>"]
      by (simp add: malloc_def)
  qed
qed

lemma getSearchPath_fst:
  "fst (PHYSFS_getSearchPath t st) =
     (if list_all id (take (Suc (length (searchPath st))) (malloc_outcomes st))
      then Some (map dirName (searchPath st)) else None)"
proof (cases "malloc_outcomes st")
  case Nil
  then show ?thesis
    by (simp add: PHYSFS_getSearchPath_def malloc_def getSearchPath_loop_fst)
next
  case (Cons ok more)
  then show ?thesis
    by (simp add: PHYSFS_getSearchPath_def malloc_def getSearchPath_loop_fst)
qed

text \<open>
  Claim C1. On a fresh search path, with both directories opening and every allocation
  succeeding, the code does the following. With a nonzero \<open>appendToPath\<close>,
  adding \<open>m\<close> and then \<open>n\<close> makes PHYSFS_getSearchPath return
  \<open>[n, m]\<close>: the flag selects insertion at the head. With \<open>appendToPath = 0\<close>,
  adding \<open>m\<close> gives \<open>[m]\<close> and the following call that adds \<open>n\<close>
  never returns: the walk to the tail does not advance.
\<close>

theorem addToSearchPath_order:
  assumes "openArchive env m = Inr r" and "openArchive env n = Inr r'"
    and "searchPath st = []" and "malloc_outcomes st = []"
  shows "(\<exists>st1 st2. PHYSFS_addToSearchPath env t (Some m) 1 st = Some (1, st1)
            \<and> PHYSFS_addToSearchPath env t (Some n) 1 st1 = Some (1, st2)
            \<and> fst (PHYSFS_getSearchPath t st2) = Some [n, m])
       \<and> (\<exists>st1. PHYSFS_addToSearchPath env t (Some m) 0 st = Some (1, st1)
            \<and> fst (PHYSFS_getSearchPath t st1) = Some [m]
            \<and> PHYSFS_addToSearchPath env t (Some n) 0 st1 = None)"
proof (intro conjI)
  let ?st1 = "st\<lparr>openReaders := r # openReaders st,
                 searchPath := \<lparr>dirName = m, reader = r\<rparr> # searchPath st\<rparr>"
  let ?st2 = "?st1\<lparr>openReaders := r' # openReaders ?st1,
                 searchPath := \<lparr>dirName = n, reader = r'\<rparr> # searchPath ?st1\<rparr>"
  have a1: "PHYSFS_addToSearchPath env t (Some m) 1 st = Some (1, ?st1)"
    using assms by (simp add: addToSearchPath_prepends)
  have a2: "PHYSFS_addToSearchPath env t (Some n) 1 ?st1 = Some (1, ?st2)"
    using assms by (simp add: addToSearchPath_prepends)
  have "fst (PHYSFS_getSearchPath t ?st2) = Some [n, m]"
    using assms by (simp add: getSearchPath_fst)
  with a1 a2 show "\<exists>st1 st2. PHYSFS_addToSearchPath env t (Some m) 1 st = Some (1, st1)
            \<and> PHYSFS_addToSearchPath env t (Some n) 1 st1 = Some (1, st2)
            \<and> fst (PHYSFS_getSearchPath t st2) = Some [n, m]"
    by blast
next
  let ?st1 = "st\<lparr>openReaders := r # openReaders st,
                 searchPath := [\<lparr>dirName = m, reader = r\<rparr>]\<rparr>"
  have a1: "PHYSFS_addToSearchPath env t (Some m) 0 st = Some (1, ?st1)"
    using assms by (simp add: addToSearchPath_tail_empty)
  have a2: "PHYSFS_addToSearchPath env t (Some n) 0 ?st1 = None"
    using assms by (simp add: addToSearchPath_tail_nonempty)
  have "fst (PHYSFS_getSearchPath t ?st1) = Some [m]"
    using assms by (simp add: getSearchPath_fst)
  with a1 a2 show "\<exists>st1. PHYSFS_addToSearchPath env t (Some m) 0 st = Some (1, st1)
            \<and> fst (PHYSFS_getSearchPath t st1) = Some [m]
            \<and> PHYSFS_addToSearchPath env t (Some n) 0 st1 = None"
    by blast
qed

theorem addToSearchPath_order_witness:
  "(\<exists>st1 st2. PHYSFS_addToSearchPath slash_platform 1 (Some ''/m'') 1 (initial_state [] [])
                 = Some (1, st1)
            \<and> PHYSFS_addToSearchPath slash_platform 1 (Some ''/n'') 1 st1 = Some (1, st2)
            \<and> fst (PHYSFS_getSearchPath 1 st2) = Some [''/n'', ''/m''])
   \<and> (\<exists>st1. PHYSFS_addToSearchPath slash_platform 1 (Some ''/m'') 0 (initial_state [] [])
                 = Some (1, st1)
            \<and> fst (PHYSFS_getSearchPath 1 st1) = Some [''/m'']
            \<and> PHYSFS_addToSearchPath slash_platform 1 (Some ''/n'') 0 st1 = None)"
proof -
  have m: "openArchive slash_platform ''/m'' = Inr 2"
    and n: "openArchive slash_platform ''/n'' = Inr 2"
    by (simp_all add: slash_platform_def)
  have s: "searchPath (initial_state [] ([]::string list)) = []"
    and a: "malloc_outcomes (initial_state [] ([]::string list)) = []"
    by (simp_all add: initial_state_def)
  from addToSearchPath_order[OF m n s a, of 1] show ?thesis .
qed

text \<open>What a call that returns 1 has done.\<close>

lemma addToSearchPath_success:
  assumes "PHYSFS_addToSearchPath env t (Some d) appendToPath st = Some (1, st1)"
  shows "\<exists>r. openArchive env d = Inr r
            \<and> searchPath st1 = \<lparr>dirName = d, reader = r\<rparr> # searchPath st
            \<and> openReaders st1 = r # openReaders st
            \<and> (appendToPath = 0 \<longrightarrow> searchPath st = [])"
proof (cases "openArchive env d")
  case (Inl e)
  with assms show ?thesis
    by (auto simp: PHYSFS_addToSearchPath_def getDirReader_def)
next
  case (Inr r)
  let ?s1 = "st\<lparr>openReaders := r # openReaders st\<rparr>"
  obtain ok1 s2 where m1: "malloc ?s1 = (ok1, s2)" by (cases "malloc ?s1")
  obtain ok2 s3 where m2: "malloc s2 = (ok2, s3)" by (cases "malloc s2")
  have f2: "searchPath s2 = searchPath st" "openReaders s2 = r # openReaders st"
    using malloc_fields(2,8)[of ?s1] m1 by simp_all
  have f3: "searchPath s3 = searchPath st" "openReaders s3 = r # openReaders st"
    using malloc_fields(2,8)[of s2] m2 f2 by simp_all
  from assms Inr m1 m2 have ok: "ok1" "ok2"
    by (auto simp: PHYSFS_addToSearchPath_def getDirReader_def split: if_splits)
  show ?thesis
  proof (cases "appendToPath = 0")
    case False
    with assms Inr m1 m2 ok f3 show ?thesis
      by (auto simp: PHYSFS_addToSearchPath_def getDirReader_def Let_def)
  next
    case True
    with assms Inr m1 m2 ok
    obtain y where w: "addToSearchPath_walk (searchPath s3) None = Some y"
      by (auto simp: PHYSFS_addToSearchPath_def getDirReader_def Let_def split: option.splits)
    from walk_result[OF w] have e: "searchPath s3 = []" "y = None" by auto
    with assms Inr m1 m2 ok True w f3 show ?thesis
      by (auto simp: PHYSFS_addToSearchPath_def getDirReader_def Let_def)
  qed
qed

lemma getSearchPath_same:
  "searchPath a = searchPath b \<Longrightarrow> malloc_outcomes a = malloc_outcomes b \<Longrightarrow>
     fst (PHYSFS_getSearchPath t a) = fst (PHYSFS_getSearchPath t b)"
  by (simp add: getSearchPath_fst)

lemma add_then_remove_any:
  assumes "PHYSFS_addToSearchPath env t (Some m) appendToPath st = Some (1, st1)"
  shows "\<exists>st2. PHYSFS_removeFromSearchPath t (Some m) st1 = (1, st2)
            \<and> searchPath st2 = searchPath st \<and> openReaders st2 = openReaders st"
proof -
  from addToSearchPath_success[OF assms] obtain r where
    sp: "searchPath st1 = \<lparr>dirName = m, reader = r\<rparr> # searchPath st" and
    rd: "openReaders st1 = r # openReaders st" by blast
  then show ?thesis
    by (simp add: PHYSFS_removeFromSearchPath_def freeSearchDir_def)
qed

text \<open>
  Claim C3. In every state and for every host path \<open>m\<close> that is not in the search
  path: when PHYSFS_addToSearchPath of \<open>m\<close> succeeds, with either value of the
  append flag, PHYSFS_removeFromSearchPath of \<open>m\<close> called next succeeds, the
  search path and the open readers are what they were before the add, and
  PHYSFS_getSearchPath returns what it returned before the add, under whatever outcomes
  of its allocations.
\<close>

theorem add_then_remove:
  assumes "m \<notin> set (map dirName (searchPath st))"
    and "PHYSFS_addToSearchPath env t (Some m) appendToPath st = Some (1, st1)"
  shows "\<exists>st2. PHYSFS_removeFromSearchPath t (Some m) st1 = (1, st2)
            \<and> searchPath st2 = searchPath st
            \<and> openReaders st2 = openReaders st
            \<and> (\<forall>ms. fst (PHYSFS_getSearchPath t (st2\<lparr>malloc_outcomes := ms\<rparr>))
                      = fst (PHYSFS_getSearchPath t (st\<lparr>malloc_outcomes := ms\<rparr>)))"
proof -
  from add_then_remove_any[OF assms(2)] obtain st2 where
    r: "PHYSFS_removeFromSearchPath t (Some m) st1 = (1, st2)" and
    s: "searchPath st2 = searchPath st" and o: "openReaders st2 = openReaders st"
    by blast
  have "\<forall>ms. fst (PHYSFS_getSearchPath t (st2\<lparr>malloc_outcomes := ms\<rparr>))
                      = fst (PHYSFS_getSearchPath t (st\<lparr>malloc_outcomes := ms\<rparr>))"
    using s by (simp add: getSearchPath_same)
  with r s o show ?thesis by blast
qed

theorem add_then_remove_witness:
  "(\<exists>st1 st2. PHYSFS_addToSearchPath slash_platform 1 (Some ''/data'') 1 two_mount_state
                 = Some (1, st1)
       \<and> fst (PHYSFS_getSearchPath 1 st1) = Some [''/data'', ''/a'', ''/b'']
       \<and> PHYSFS_removeFromSearchPath 1 (Some ''/data'') st1 = (1, st2)
       \<and> fst (PHYSFS_getSearchPath 1 st2) = Some [''/a'', ''/b''])
   \<and> fst (PHYSFS_getSearchPath 1 two_mount_state) = Some [''/a'', ''/b'']
   \<and> (\<exists>st1 st2. PHYSFS_addToSearchPath slash_platform 1 (Some ''/data'') 0 (initial_state [] [])
                 = Some (1, st1)
       \<and> fst (PHYSFS_getSearchPath 1 st1) = Some [''/data'']
       \<and> PHYSFS_removeFromSearchPath 1 (Some ''/data'') st1 = (1, st2)
       \<and> fst (PHYSFS_getSearchPath 1 st2) = Some [])"
proof -
  let ?st1 = "two_mount_state\<lparr>openReaders := 5 # openReaders two_mount_state,
      searchPath := \<lparr>dirName = ''/data'', reader = 5\<rparr> # searchPath two_mount_state\<rparr>"
  have fresh: "''/data'' \<notin> set (map dirName (searchPath two_mount_state))"
    by (simp add: two_mount_state_def initial_state_def)
  have o: "openArchive slash_platform ''/data'' = Inr 5"
    by (simp add: slash_platform_def)
  have ms: "malloc_outcomes two_mount_state = []"
    by (simp add: two_mount_state_def initial_state_def)
  have add: "PHYSFS_addToSearchPath slash_platform 1 (Some ''/data'') 1 two_mount_state
      = Some (1, ?st1)"
    using o ms by (simp add: addToSearchPath_prepends)
  have l0: "fst (PHYSFS_getSearchPath 1 two_mount_state) = Some [''/a'', ''/b'']"
    by (simp add: getSearchPath_fst two_mount_state_def initial_state_def)
  have l1: "fst (PHYSFS_getSearchPath 1 ?st1) = Some [''/data'', ''/a'', ''/b'']"
    by (simp add: getSearchPath_fst two_mount_state_def initial_state_def)
  from add_then_remove[OF fresh add] obtain st2 where
    r: "PHYSFS_removeFromSearchPath 1 (Some ''/data'') ?st1 = (1, st2)" and
    g: "\<forall>ms. fst (PHYSFS_getSearchPath 1 (st2\<lparr>malloc_outcomes := ms\<rparr>))
              = fst (PHYSFS_getSearchPath 1 (two_mount_state\<lparr>malloc_outcomes := ms\<rparr>))"
    by blast
  have m2: "malloc_outcomes st2 = []"
    using r ms by (auto simp: PHYSFS_removeFromSearchPath_def freeSearchDir_def)
  from g have "fst (PHYSFS_getSearchPath 1 (st2\<lparr>malloc_outcomes := []\<rparr>))
              = fst (PHYSFS_getSearchPath 1 (two_mount_state\<lparr>malloc_outcomes := []\<rparr>))"
    by blast
  with m2 ms l0 have l2: "fst (PHYSFS_getSearchPath 1 st2) = Some [''/a'', ''/b'']"
    by (metis state.surjective state.update_convs(9))
  let ?e = "initial_state [] ([]::string list)"
  let ?e1 = "?e\<lparr>openReaders := 5 # openReaders ?e,
      searchPath := [\<lparr>dirName = ''/data'', reader = 5\<rparr>]\<rparr>"
  have e: "searchPath ?e = []" "malloc_outcomes ?e = []"
    by (simp_all add: initial_state_def)
  have fresh0: "''/data'' \<notin> set (map dirName (searchPath ?e))"
    by (simp add: e)
  have add0: "PHYSFS_addToSearchPath slash_platform 1 (Some ''/data'') 0 ?e = Some (1, ?e1)"
    using o e by (simp add: addToSearchPath_tail_empty)
  have k1: "fst (PHYSFS_getSearchPath 1 ?e1) = Some [''/data'']"
    by (simp add: getSearchPath_fst initial_state_def)
  from add_then_remove[OF fresh0 add0] obtain st3 where
    r0: "PHYSFS_removeFromSearchPath 1 (Some ''/data'') ?e1 = (1, st3)" and
    s0: "searchPath st3 = searchPath ?e"
    by blast
  have m3: "malloc_outcomes st3 = []"
    using r0 e by (auto simp: PHYSFS_removeFromSearchPath_def freeSearchDir_def)
  have k2: "fst (PHYSFS_getSearchPath 1 st3) = Some []"
    using s0 m3 e by (simp add: getSearchPath_fst)
  from add l1 r l2 l0 add0 k1 r0 k2 show ?thesis by blast
qed

text \<open>A call that fails leaves the search path as it was.\<close>

lemma freeReader_searchPath: "searchPath (freeReader r st) = searchPath st"
  by (simp add: freeReader_def)

lemma addToSearchPath_failure_searchPath:
  assumes "PHYSFS_addToSearchPath env t newDir appendToPath st = Some (0, st')"
  shows "searchPath st' = searchPath st"
proof (cases newDir)
  case None
  with assms show ?thesis by (auto simp: PHYSFS_addToSearchPath_def setError_fields)
next
  case (Some d)
  show ?thesis
  proof (cases "openArchive env d")
    case (Inl e)
    with assms Some show ?thesis
      by (auto simp: PHYSFS_addToSearchPath_def getDirReader_def setError_fields)
  next
    case (Inr r)
    let ?s1 = "st\<lparr>openReaders := r # openReaders st\<rparr>"
    obtain ok1 s2 where m1: "malloc ?s1 = (ok1, s2)" by (cases "malloc ?s1")
    obtain ok2 s3 where m2: "malloc s2 = (ok2, s3)" by (cases "malloc s2")
    have sp2: "searchPath s2 = searchPath st"
      using malloc_fields(2)[of ?s1] m1 by simp
    have sp3: "searchPath s3 = searchPath st"
      using malloc_fields(2)[of s2] m2 sp2 by simp
    from assms Some Inr m1 m2 sp2 sp3 show ?thesis
      by (auto simp: PHYSFS_addToSearchPath_def getDirReader_def setError_fields
          freeReader_searchPath Let_def split: if_splits option.splits)
  qed
qed

text \<open>
  Claim C8. A call of PHYSFS_addToSearchPath that fails, for whatever reason, leaves the
  search path as it was. When the allocation of the directory name fails, the reader
  that was opened is freed: the open readers are what they were. When the allocation of
  the node itself fails, the code returns without freeing the reader: it stays open
  after the failed call.
\<close>

theorem addToSearchPath_failure:
  "(\<forall>st'. PHYSFS_addToSearchPath env t newDir appendToPath st = Some (0, st') \<longrightarrow>
       searchPath st' = searchPath st)
   \<and> (openArchive env d = Inr r \<and> malloc_outcomes st = True # False # ms \<longrightarrow>
        (\<exists>st'. PHYSFS_addToSearchPath env t (Some d) appendToPath st = Some (0, st')
            \<and> openReaders st' = openReaders st))
   \<and> (openArchive env d = Inr r \<and> malloc_outcomes st = False # ms \<longrightarrow>
        (\<exists>st'. PHYSFS_addToSearchPath env t (Some d) appendToPath st = Some (0, st')
            \<and> openReaders st' = r # openReaders st))"
proof (intro conjI allI impI)
  fix st' assume "PHYSFS_addToSearchPath env t newDir appendToPath st = Some (0, st')"
  then show "searchPath st' = searchPath st" by (rule addToSearchPath_failure_searchPath)
next
  assume "openArchive env d = Inr r \<and> malloc_outcomes st = True # False # ms"
  then show "\<exists>st'. PHYSFS_addToSearchPath env t (Some d) appendToPath st = Some (0, st')
            \<and> openReaders st' = openReaders st"
    by (simp add: PHYSFS_addToSearchPath_def getDirReader_def malloc_def setError_fields
        freeReader_def)
next
  assume "openArchive env d = Inr r \<and> malloc_outcomes st = False # ms"
  then show "\<exists>st'. PHYSFS_addToSearchPath env t (Some d) appendToPath st = Some (0, st')
            \<and> openReaders st' = r # openReaders st"
    by (simp add: PHYSFS_addToSearchPath_def getDirReader_def malloc_def setError_fields)
qed

theorem addToSearchPath_failure_witness:
  "(\<exists>st'. PHYSFS_addToSearchPath slash_platform 1 (Some ''/data'') 1
              (initial_state [True, False] []) = Some (0, st')
       \<and> searchPath st' = [] \<and> openReaders st' = [])
   \<and> (\<exists>st'. PHYSFS_addToSearchPath slash_platform 1 (Some ''/data'') 1
              (initial_state [False] []) = Some (0, st')
       \<and> searchPath st' = [] \<and> openReaders st' = [5])"
proof -
  let ?a = "initial_state [True, False] ([]::string list)"
  let ?b = "initial_state [False] ([]::string list)"
  have o: "openArchive slash_platform ''/data'' = Inr 5"
    by (simp add: slash_platform_def)
  have a: "malloc_outcomes ?a = True # False # []" "openReaders ?a = []" "searchPath ?a = []"
    and b: "malloc_outcomes ?b = False # []" "openReaders ?b = []" "searchPath ?b = []"
    by (simp_all add: initial_state_def)
  from addToSearchPath_failure[of slash_platform 1 "Some ''/data''" 1 ?a "''/data''" 5 "[]"]
       addToSearchPath_failure[of slash_platform 1 "Some ''/data''" 1 ?b "''/data''" 5 "[]"]
       o a b
  show ?thesis by auto
qed

section \<open>Properties of shutting down\<close>

text \<open>The loop of freeSearchPath ends on the empty list only.\<close>

lemma freeSearchPath_loop_Some: "freeSearchPath_loop i st = Some y \<Longrightarrow> i = []"
  by (rule freeSearchPath_loop.raw_induct[where P="\<lambda>i st y. i = []"])
     (auto split: if_splits)

lemma freeSearchPath_loop_nonempty: "i \<noteq> [] \<Longrightarrow> freeSearchPath_loop i st = None"
  using freeSearchPath_loop_Some by (cases "freeSearchPath_loop i st") auto

lemma freeSearchPath_nonempty: "searchPath st \<noteq> [] \<Longrightarrow> freeSearchPath st = None"
  by (simp add: freeSearchPath_def freeSearchPath_loop_nonempty)

lemma freeSearchPath_empty: "searchPath st = [] \<Longrightarrow> freeSearchPath st = Some st"
  by (simp add: freeSearchPath_def)

lemma setWriteDir_NULL:
  "PHYSFS_setWriteDir env t None st =
     (if openWriteCount st > 0 then (0, PHYSFS_setError t ERR_FILES_OPEN_WRITE st)
      else (1, st\<lparr>writeDir := None\<rparr>))"
  by (cases "writeDir st") (simp_all add: PHYSFS_setWriteDir_def)

lemma setWriteDir_NULL_searchPath:
  "searchPath (snd (PHYSFS_setWriteDir env t None st)) = searchPath st"
  by (simp add: setWriteDir_NULL setError_fields)

text \<open>
  Claim C4. In an initialized state whose search path holds one or more mounts,
  PHYSFS_deinit never returns: the loop of freeSearchPath does not leave the first node.
  In an initialized state with an empty search path and no open writer it returns, with
  the write directory cleared, the error slots freed and the flags reset; the pointer
  \<open>baseDir\<close> keeps its value.
\<close>

theorem deinit_with_mounts:
  "(initialized st \<noteq> 0 \<and> searchPath st \<noteq> [] \<longrightarrow> PHYSFS_deinit env t st = None)
   \<and> (initialized st \<noteq> 0 \<and> searchPath st = [] \<and> openWriteCount st \<le> 0 \<longrightarrow>
        PHYSFS_deinit env t st =
          Some (st\<lparr>writeDir := None, errorMessages := [], allowSymLinks := 0, initialized := 0\<rparr>))"
proof (intro conjI impI)
  assume a: "initialized st \<noteq> 0 \<and> searchPath st \<noteq> []"
  then have "freeSearchPath (snd (PHYSFS_setWriteDir env t None (closeAllFiles st))) = None"
    by (simp add: freeSearchPath_nonempty setWriteDir_NULL_searchPath closeAllFiles_def)
  with a show "PHYSFS_deinit env t st = None"
    by (simp add: PHYSFS_deinit_def Let_def)
next
  assume a: "initialized st \<noteq> 0 \<and> searchPath st = [] \<and> openWriteCount st \<le> 0"
  then have w: "snd (PHYSFS_setWriteDir env t None (closeAllFiles st)) = st\<lparr>writeDir := None\<rparr>"
    by (simp add: setWriteDir_NULL closeAllFiles_def)
  have "freeSearchPath (st\<lparr>writeDir := None\<rparr>) = Some (st\<lparr>writeDir := None\<rparr>)"
    using a by (simp add: freeSearchPath_empty)
  with a w show "PHYSFS_deinit env t st =
      Some (st\<lparr>writeDir := None, errorMessages := [], allowSymLinks := 0, initialized := 0\<rparr>)"
    by (simp add: PHYSFS_deinit_def Let_def freeErrorMessages_def)
qed

theorem deinit_with_mounts_witness:
  "PHYSFS_deinit slash_platform 1 one_mount_state = None
   \<and> PHYSFS_deinit slash_platform 1 (one_mount_state\<lparr>searchPath := []\<rparr>) =
       Some (one_mount_state\<lparr>searchPath := [], writeDir := None, errorMessages := [],
               allowSymLinks := 0, initialized := 0\<rparr>)"
proof -
  have h1: "initialized one_mount_state \<noteq> 0 \<and> searchPath one_mount_state \<noteq> []"
    by (simp add: one_mount_state_def initial_state_def)
  have h2: "initialized (one_mount_state\<lparr>searchPath := []\<rparr>) \<noteq> 0
      \<and> searchPath (one_mount_state\<lparr>searchPath := []\<rparr>) = []
      \<and> openWriteCount (one_mount_state\<lparr>searchPath := []\<rparr>) \<le> 0"
    by (simp add: one_mount_state_def initial_state_def)
  from deinit_with_mounts[of one_mount_state slash_platform 1]
       deinit_with_mounts[of "one_mount_state\<lparr>searchPath := []\<rparr>" slash_platform 1] h1 h2
  show ?thesis by auto
qed

section \<open>Properties of the user directory\<close>

text \<open>
  Claim C9. On its first call (the static \<open>retval\<close> still NULL) PHYSFS_getUserDir
  computes the platform's user directory when there is one, otherwise the value of
  \<open>$HOME\<close> when it is set, otherwise a path under the base directory, stores the
  computed value in \<open>retval\<close>, and in each of the three cases returns
  \<open>baseDir\<close> instead of it. Only a later call returns the stored value.
\<close>

theorem getUserDir_returns_baseDir:
  "(userDir_retval st = None \<and> platformGetUserDir env = Some u \<longrightarrow>
      PHYSFS_getUserDir env st = Inr (baseDir st, st\<lparr>userDir_retval := Some u\<rparr>))
   \<and> (userDir_retval st = None \<and> platformGetUserDir env = None \<and> getenv_HOME env = Some h \<longrightarrow>
      PHYSFS_getUserDir env st = Inr (baseDir st, st\<lparr>userDir_retval := Some h\<rparr>))
   \<and> (userDir_retval st = None \<and> platformGetUserDir env = None \<and> getenv_HOME env = None
        \<and> baseDir st = Some b \<and> malloc_outcomes st = [] \<and> platformGetUserName env = Some n \<longrightarrow>
      PHYSFS_getUserDir env st =
        Inr (Some b, st\<lparr>userDir_retval :=
                          Some (b @ pathSeparator env @ ''users'' @ pathSeparator env @ n)\<rparr>))
   \<and> (userDir_retval st = Some d \<longrightarrow> PHYSFS_getUserDir env st = Inr (Some d, st))"
  by (simp add: PHYSFS_getUserDir_def PHYSFS_getDirSeparator_def malloc_def Let_def)

theorem getUserDir_returns_baseDir_witness:
  "PHYSFS_getUserDir slash_platform ((initial_state [] [])\<lparr>baseDir := Some ''/app''\<rparr>)
     = Inr (Some ''/app'',
            (initial_state [] [])\<lparr>baseDir := Some ''/app'', userDir_retval := Some ''/home/u''\<rparr>)
   \<and> PHYSFS_getUserDir (slash_platform\<lparr>platformGetUserDir := None\<rparr>)
        ((initial_state [] [])\<lparr>baseDir := Some ''/app''\<rparr>)
     = Inr (Some ''/app'',
            (initial_state [] [])\<lparr>baseDir := Some ''/app'', userDir_retval := Some ''/env/home''\<rparr>)
   \<and> PHYSFS_getUserDir (slash_platform\<lparr>platformGetUserDir := None, getenv_HOME := None\<rparr>)
        ((initial_state [] [])\<lparr>baseDir := Some ''/app''\<rparr>)
     = Inr (Some ''/app'',
            (initial_state [] [])\<lparr>baseDir := Some ''/app'',
               userDir_retval := Some ''/app/users/u''\<rparr>)
   \<and> PHYSFS_getUserDir slash_platform
        ((initial_state [] [])\<lparr>baseDir := Some ''/app'', userDir_retval := Some ''/home/u''\<rparr>)
     = Inr (Some ''/home/u'',
            (initial_state [] [])\<lparr>baseDir := Some ''/app'', userDir_retval := Some ''/home/u''\<rparr>)"
proof -
  let ?st = "(initial_state [] ([]::string list))\<lparr>baseDir := Some ''/app''\<rparr>"
  have s: "userDir_retval ?st = None" "baseDir ?st = Some ''/app''" "malloc_outcomes ?st = []"
    by (simp_all add: initial_state_def)
  have p: "platformGetUserDir slash_platform = Some ''/home/u''"
    "getenv_HOME slash_platform = Some ''/env/home''"
    "platformGetUserName slash_platform = Some ''u''"
    "pathSeparator slash_platform = ''/''"
    by (simp_all add: slash_platform_def)
  from getUserDir_returns_baseDir[of ?st slash_platform "''/home/u''"]
       getUserDir_returns_baseDir[of ?st "slash_platform\<lparr>platformGetUserDir := None\<rparr>"
          _ "''/env/home''"]
       getUserDir_returns_baseDir[of ?st
          "slash_platform\<lparr>platformGetUserDir := None, getenv_HOME := None\<rparr>"
          _ _ "''/app''" "''u''"]
       getUserDir_returns_baseDir[of "?st\<lparr>userDir_retval := Some ''/home/u''\<rparr>" slash_platform
          _ _ _ _ "''/home/u''"]
       s p
  show ?thesis by simp
qed

section \<open>Properties of path translation, mkdir and delete\<close>

text \<open>
  A name without \<open>/\<close> is copied behind the prepended directory and the
  separator, byte for byte, and the block is large enough for it.
\<close>

lemma c_string_terminated:
  "NUL \<notin> set s \<Longrightarrow> c_string (map Some s @ Some NUL # rest) = Some s"
  by (induction s) auto

lemma poke_at_end_of_prefix:
  "length bytes \<le> length tail \<Longrightarrow>
     poke (map Some pre @ tail) (length pre) bytes =
       Some (map Some (pre @ bytes) @ drop (length bytes) tail)"
  by (simp add: poke_def)

lemma allocSize_loop_no_slash:
  "CHR ''/'' \<notin> set p \<Longrightarrow> allocSize_loop p sepsize a = a"
  by (induction p arbitrary: a) auto

lemma convert_loop_no_slash:
  "CHR ''/'' \<notin> set p \<Longrightarrow> length p \<le> length tail \<Longrightarrow>
     convert_loop dirsep p (length pre) (map Some pre @ tail) =
       Some (length pre + length p, map Some (pre @ p) @ drop (length p) tail)"
proof (induction p arbitrary: pre tail)
  case Nil
  then show ?case by simp
next
  case (Cons c p)
  from Cons.prems obtain x tail' where t: "tail = x # tail'" by (cases tail) auto
  from Cons.prems have c: "c \<noteq> CHR ''/''" by auto
  have pk: "poke (map Some pre @ tail) (length pre) [c] = Some (map Some (pre @ [c]) @ tail')"
    using poke_at_end_of_prefix[of "[c]" tail pre] t by simp
  have "convert_loop dirsep p (length (pre @ [c])) (map Some (pre @ [c]) @ tail') =
       Some (length (pre @ [c]) + length p, map Some ((pre @ [c]) @ p) @ drop (length p) tail')"
    using Cons.prems t by (intro Cons.IH) auto
  with c pk t show ?case by simp
qed

lemma convert_fill_no_slash:
  assumes "CHR ''/'' \<notin> set p" and "NUL \<notin> set (w @ dirsep)"
    and "length w + length dirsep + length p + 1 \<le> n"
  shows "\<exists>rest. convert_fill dirsep n (Some w) p None =
           Some (map Some (w @ dirsep @ p) @ Some NUL # rest)"
proof -
  define b0 :: buffer where "b0 = (replicate n None)[0 := Some NUL]"
  have lb0: "length b0 = n" by (simp add: b0_def)
  have p0: "poke (replicate n None) 0 [NUL] = Some b0"
    using assms(3) by (cases n) (simp_all add: poke_def b0_def)
  define t1 where "t1 = drop (length (w @ [NUL])) b0"
  have c1: "strcpy b0 0 w = Some (map Some (w @ [NUL]) @ t1)"
    using poke_at_end_of_prefix[of "w @ [NUL]" b0 "[]"] assms(3) lb0
    by (simp add: strcpy_def t1_def)
  have lt1: "length t1 = n - (length w + 1)" by (simp add: t1_def lb0)
  have b1: "map Some (w @ [NUL]) @ t1 = map Some w @ Some NUL # t1" by simp
  have cs1: "c_string (map Some w @ Some NUL # t1) = Some w"
    using assms(2) by (intro c_string_terminated) simp
  define t2 where "t2 = drop (length (dirsep @ [NUL])) (Some NUL # t1)"
  have lt2: "length t2 = n - (length w + length dirsep + 1)"
    using lt1 by (simp add: t2_def)
  have c2: "strcat (map Some (w @ [NUL]) @ t1) dirsep = Some (map Some (w @ dirsep @ [NUL]) @ t2)"
    using poke_at_end_of_prefix[of "dirsep @ [NUL]" "Some NUL # t1" w] assms(3) lt1 cs1
    unfolding b1 by (simp add: strcat_def strcpy_def t2_def)
  have b2: "map Some (w @ dirsep @ [NUL]) @ t2 = map Some (w @ dirsep) @ Some NUL # t2" by simp
  have cs2: "c_string (map Some (w @ dirsep) @ Some NUL # t2) = Some (w @ dirsep)"
    using assms(2) by (intro c_string_terminated) simp
  define t3 where "t3 = drop (length p) (Some NUL # t2)"
  have lt3: "length t3 = n - (length w + length dirsep + length p)"
    using lt2 assms(3) by (simp add: t3_def)
  have lp: "convert_loop dirsep p (length (w @ dirsep)) (map Some (w @ dirsep) @ Some NUL # t2) =
      Some (length (w @ dirsep) + length p, map Some ((w @ dirsep) @ p) @ t3)"
    unfolding t3_def using assms(1,3) lt2 by (intro convert_loop_no_slash) auto
  have pk: "poke (map Some ((w @ dirsep) @ p) @ t3) (length ((w @ dirsep) @ p)) [NUL] =
      Some (map Some (((w @ dirsep) @ p) @ [NUL]) @ drop (length [NUL]) t3)"
    using lt3 assms(3) by (intro poke_at_end_of_prefix) simp
  have "convert_fill dirsep n (Some w) p None =
          Some (map Some (((w @ dirsep) @ p) @ [NUL]) @ drop (length [NUL]) t3)"
    unfolding convert_fill_def p0
    using c1 c2[unfolded b2] cs2 lp pk
    by (simp add: add.assoc)
  then show ?thesis by simp
qed

lemma convert_no_slash:
  assumes wd: "writeDir st = Some w" and ok: "fst (malloc st)"
    and p: "CHR ''/'' \<notin> set p" and nul: "NUL \<notin> set (w @ pathSeparator env @ p)"
  shows "convertToDependentNotation env t (Some w) p None st =
           Inr (Some (w @ pathSeparator env @ p), snd (malloc st))"
proof -
  let ?sep = "pathSeparator env"
  let ?n = "length p + length w + length ?sep + 1 + (length w + length ?sep)"
  from nul have n1: "NUL \<notin> set (w @ ?sep)" and n2: "NUL \<notin> set (w @ ?sep @ p)" by auto
  from convert_fill_no_slash[OF p n1, of ?n] obtain rest where
    f: "convert_fill ?sep ?n (Some w) p None = Some (map Some (w @ ?sep @ p) @ Some NUL # rest)"
    by auto
  have cs: "c_string (map Some (w @ ?sep @ p) @ Some NUL # rest) = Some (w @ ?sep @ p)"
    using n2 by (rule c_string_terminated)
  obtain st1 where m: "malloc st = (True, st1)" using ok by (cases "malloc st") auto
  show ?thesis
    using wd m f cs
    by (simp add: convertToDependentNotation_def PHYSFS_getDirSeparator_def Let_def
        allocSize_loop_no_slash[OF p])
qed

lemma mkdir_no_write_dir:
  "writeDir st = None \<Longrightarrow> PHYSFS_mkdir env t p st = Inr (0, PHYSFS_setError t ERR_NO_WRITE_DIR st)"
  by (simp add: PHYSFS_mkdir_def)

lemma delete_no_write_dir:
  "writeDir st = None \<Longrightarrow> PHYSFS_delete env t p st = Inr (0, PHYSFS_setError t ERR_NO_WRITE_DIR st)"
  by (simp add: PHYSFS_delete_def)

lemma mkdir_no_slash:
  assumes "writeDir st = Some w" "fst (malloc st)"
    "CHR ''/'' \<notin> set p" "NUL \<notin> set (w @ pathSeparator env @ p)"
  shows "PHYSFS_mkdir env t p st =
     (case createDirs_dependent env (w @ pathSeparator env @ p) (hostfs st) of
        (rc, fs') \<Rightarrow> Inr (rc, (snd (malloc st))\<lparr>hostfs := fs'\<rparr>))"
  using assms(1) convert_no_slash[OF assms, of t]
  by (simp add: PHYSFS_mkdir_def malloc_fields)

lemma delete_no_slash:
  assumes "writeDir st = Some w" "fst (malloc st)"
    "CHR ''/'' \<notin> set p" "NUL \<notin> set (w @ pathSeparator env @ p)"
  shows "PHYSFS_delete env t p st =
     (case remove_c env (w @ pathSeparator env @ p) (hostfs st) of
        (rc, msg, fs') \<Rightarrow>
          if rc = 0 then Inr (1, (snd (malloc st))\<lparr>hostfs := fs'\<rparr>)
          else Inr (0, PHYSFS_setError t msg ((snd (malloc st))\<lparr>hostfs := fs'\<rparr>)))"
  using assms(1) convert_no_slash[OF assms, of t]
  by (simp add: PHYSFS_delete_def malloc_fields)

text \<open>
  Claim C2, as amended. PHYSFS_mkdir and PHYSFS_delete do not validate the logical
  path. With no write directory set they fail on every path with the error NoWriteDir
  and leave the host file system as it was. With the write directory \<open>w\<close> set
  and the allocation succeeding, a path \<open>p\<close> without \<open>/\<close> (so also
  \<open>..\<close>, \<open>.\<close>, the empty path, and a path with a backslash or a colon)
  is handed to the host operation as \<open>w\<close>, the separator and \<open>p\<close>, and
  the call returns what the host operation gives.
\<close>

theorem mkdir_delete_unvalidated:
  "(writeDir st = None \<longrightarrow>
      PHYSFS_mkdir env t p st = Inr (0, PHYSFS_setError t ERR_NO_WRITE_DIR st)
      \<and> PHYSFS_delete env t p st = Inr (0, PHYSFS_setError t ERR_NO_WRITE_DIR st)
      \<and> hostfs (PHYSFS_setError t ERR_NO_WRITE_DIR st) = hostfs st)
   \<and> (writeDir st = Some w \<and> fst (malloc st) \<and> CHR ''/'' \<notin> set p
        \<and> NUL \<notin> set (w @ pathSeparator env @ p) \<longrightarrow>
      PHYSFS_mkdir env t p st =
        (case createDirs_dependent env (w @ pathSeparator env @ p) (hostfs st) of
           (rc, fs') \<Rightarrow> Inr (rc, (snd (malloc st))\<lparr>hostfs := fs'\<rparr>))
      \<and> PHYSFS_delete env t p st =
        (case remove_c env (w @ pathSeparator env @ p) (hostfs st) of
           (rc, msg, fs') \<Rightarrow>
             if rc = 0 then Inr (1, (snd (malloc st))\<lparr>hostfs := fs'\<rparr>)
             else Inr (0, PHYSFS_setError t msg ((snd (malloc st))\<lparr>hostfs := fs'\<rparr>))))"
  using mkdir_no_write_dir[of st env t p] delete_no_write_dir[of st env t p]
    mkdir_no_slash[of st w p env t] delete_no_slash[of st w p env t]
  by (simp add: setError_fields)

theorem mkdir_delete_unvalidated_witness:
  "PHYSFS_mkdir slash_platform 1 ''..'' (initial_state [] [])
     = Inr (0, PHYSFS_setError 1 ERR_NO_WRITE_DIR (initial_state [] []))
   \<and> PHYSFS_delete slash_platform 1 ''..'' (initial_state [] [])
     = Inr (0, PHYSFS_setError 1 ERR_NO_WRITE_DIR (initial_state [] []))
   \<and> hostfs (PHYSFS_setError 1 ERR_NO_WRITE_DIR (initial_state [] ([]::string list))) = []
   \<and> PHYSFS_mkdir slash_platform 1 ''c:'' write_root_state
     = Inr (1, write_root_state\<lparr>hostfs := [''mkdir /w/c:'']\<rparr>)
   \<and> PHYSFS_delete slash_platform 1 ''.'' write_root_state
     = Inr (1, write_root_state\<lparr>hostfs := [''remove /w/.'']\<rparr>)"
proof -
  have n: "writeDir (initial_state [] ([]::string list)) = None"
    and hn: "hostfs (initial_state [] ([]::string list)) = []"
    by (simp_all add: initial_state_def)
  have w: "writeDir write_root_state = Some ''/w''" and m: "fst (malloc write_root_state)"
    and s: "snd (malloc write_root_state) = write_root_state"
    and h: "hostfs write_root_state = []"
    by (simp_all add: write_root_state_def initial_state_def malloc_def)
  have sep: "pathSeparator slash_platform = ''/''"
    and mk: "createDirs_dependent slash_platform = (\<lambda>p fs. (1, (''mkdir '' @ p) # fs))"
    and rm: "remove_c slash_platform = (\<lambda>p fs. (0, [], (''remove '' @ p) # fs))"
    by (simp_all add: slash_platform_def)
  from mkdir_delete_unvalidated[where st = "initial_state [] []" and env = slash_platform
      and t = 1 and p = "''..''"] n hn
  have a: "PHYSFS_mkdir slash_platform 1 ''..'' (initial_state [] [])
       = Inr (0, PHYSFS_setError 1 ERR_NO_WRITE_DIR (initial_state [] []))
     \<and> PHYSFS_delete slash_platform 1 ''..'' (initial_state [] [])
       = Inr (0, PHYSFS_setError 1 ERR_NO_WRITE_DIR (initial_state [] []))
     \<and> hostfs (PHYSFS_setError 1 ERR_NO_WRITE_DIR (initial_state [] ([]::string list))) = []"
    by simp
  from mkdir_delete_unvalidated[where st = write_root_state and w = "''/w''" and p = "''c:''"
      and env = slash_platform and t = 1] w m
  have b: "PHYSFS_mkdir slash_platform 1 ''c:'' write_root_state
     = Inr (1, write_root_state\<lparr>hostfs := [''mkdir /w/c:'']\<rparr>)"
    by (simp add: sep mk s h NUL_def)
  from mkdir_delete_unvalidated[where st = write_root_state and w = "''/w''" and p = "''.''"
      and env = slash_platform and t = 1] w m
  have c: "PHYSFS_delete slash_platform 1 ''.'' write_root_state
     = Inr (1, write_root_state\<lparr>hostfs := [''remove /w/.'']\<rparr>)"
    by (simp add: sep rm s h NUL_def)
  from a b c show ?thesis by simp
qed

text \<open>
  With a write directory, \<open>mkdir\<close> of \<open>..\<close> and \<open>delete\<close> of
  \<open>a:b\<close> succeed and reach the host file system; without one, the error that
  \<open>mkdir\<close> of \<open>..\<close> sets is NoWriteDir.
\<close>

theorem mkdir_delete_unvalidated_counterexample:
  "PHYSFS_mkdir slash_platform 1 ''..'' write_root_state
     = Inr (1, write_root_state\<lparr>hostfs := [''mkdir /w/..'']\<rparr>)
   \<and> PHYSFS_delete slash_platform 1 ''a:b'' write_root_state
     = Inr (1, write_root_state\<lparr>hostfs := [''remove /w/a:b'']\<rparr>)
   \<and> fst (PHYSFS_getLastError 1 (snd (projr
        (PHYSFS_mkdir slash_platform 1 ''..'' (initial_state [] [])))))
     = Some ''NoWriteDir''"
proof -
  have w: "writeDir write_root_state = Some ''/w''" and m: "fst (malloc write_root_state)"
    and s: "snd (malloc write_root_state) = write_root_state"
    and h: "hostfs write_root_state = []"
    by (simp_all add: write_root_state_def initial_state_def malloc_def)
  have sep: "pathSeparator slash_platform = ''/''"
    and mk: "createDirs_dependent slash_platform = (\<lambda>p fs. (1, (''mkdir '' @ p) # fs))"
    and rm: "remove_c slash_platform = (\<lambda>p fs. (0, [], (''remove '' @ p) # fs))"
    by (simp_all add: slash_platform_def)
  have a: "PHYSFS_mkdir slash_platform 1 ''..'' write_root_state
     = Inr (1, write_root_state\<lparr>hostfs := [''mkdir /w/..'']\<rparr>)"
    using mkdir_no_slash[OF w m, of "''..''" slash_platform 1]
    by (simp add: sep mk s h NUL_def)
  have b: "PHYSFS_delete slash_platform 1 ''a:b'' write_root_state
     = Inr (1, write_root_state\<lparr>hostfs := [''remove /w/a:b'']\<rparr>)"
    using delete_no_slash[OF w m, of "''a:b''" slash_platform 1]
    by (simp add: sep rm s h NUL_def)
  have c: "fst (PHYSFS_getLastError 1 (snd (projr
        (PHYSFS_mkdir slash_platform 1 ''..'' (initial_state [] ([]::string list))))))
     = Some ''NoWriteDir''"
    by (simp add: PHYSFS_mkdir_def initial_state_def PHYSFS_getLastError_def
        PHYSFS_setError_def findErrorForCurrentThread_def malloc_def ERR_NO_WRITE_DIR_def)
  from a b c show ?thesis by simp
qed

text \<open>
  A name with \<open>/\<close> fares differently. After each separator the increment of
  the \<open>for\<close> statement steps over the terminator that \<open>strcpy\<close> wrote,
  so what follows is written behind that terminator and the C string handed to the
  host ends with the first separator. With enough separators the writes leave the
  block, which has room for one extra byte per \<open>/\<close> only through the
  \<open>strlen(writeDir) + sepsize\<close> counted twice.
\<close>

lemma mkdir_two_components:
  "PHYSFS_mkdir slash_platform 1 ''a/b'' write_root_state
     = Inr (1, write_root_state\<lparr>hostfs := [''mkdir /w/a/'']\<rparr>)"
  by code_simp

lemma mkdir_five_components:
  "PHYSFS_mkdir slash_platform 1 ''a/b/c/d/e'' write_root_state = Inl BufferOverflow"
  by code_simp

end
